theory Spec2Isabelle
  imports Main "HOL-Library.Word" "HOL-Library.Signed_Division" "HOL-Library.AList"
begin

unbundle bit_operations_syntax

section \<open>Shadow-WAL capture engine of litestream (db.go)\<close>

text \<open>
  A shallow embedding of the parts of \<^verbatim>\<open>db.go\<close> that decide the checked properties:
  frame alignment, the checkpoint policy of \<^verbatim>\<open>Sync\<close>, pruning, \<^verbatim>\<open>verify\<close>, the frame
  copy, the shadow WAL reader and the option validation of \<^verbatim>\<open>RestoreReplica\<close>.
  Go's \<^verbatim>\<open>int\<close> and \<^verbatim>\<open>int64\<close> are modelled as \<^typ>\<open>int\<close> with the 64-bit wrap-around
  written out (\<open>int64\<close> below), bytes as \<^typ>\<open>8 word\<close>, files as byte lists.
\<close>

subsection \<open>Constants and machine integers\<close>

text \<open>
  Modelled from the spec: the constants \<^verbatim>\<open>WALHeaderSize\<close> and \<^verbatim>\<open>WALFrameHeaderSize\<close> are
  declared outside \<^verbatim>\<open>db.go\<close>; the spec fixes the header at 32 bytes and the frame
  header at 24 bytes.
\<close>

definition WALHeaderSize :: int where
  "WALHeaderSize = 32"

definition WALFrameHeaderSize :: int where
  "WALFrameHeaderSize = 24"

text \<open>The value a 64-bit two's complement register holds after computing \<open>k\<close>.\<close>

definition int64 :: "int \<Rightarrow> int" where
  "int64 k = (k + 2 ^ 63) mod 2 ^ 64 - 2 ^ 63"

subsection \<open>Frame alignment\<close>

text \<open>
  \<^verbatim>\<open>frameAlign(offset int64, pageSize int) int64\<close>. The two \<^verbatim>\<open>assert\<close> calls panic on a
  negative argument (\<open>None\<close>); Go's \<^verbatim>\<open>/\<close> truncates towards zero (\<open>sdiv\<close>) and panics
  on a zero divisor; every arithmetic result is wrapped to 64 bits.
\<close>

definition frameAlign :: "int \<Rightarrow> int \<Rightarrow> int option" where
  "frameAlign offset pageSize =
     (if \<not> offset \<ge> 0 then None
      else if \<not> pageSize \<ge> 0 then None
      else if offset < WALHeaderSize then Some 0
      else
        let frameSize = int64 (WALFrameHeaderSize + int64 pageSize) in
        if frameSize = 0 then None
        else
          let frameN = int64 (int64 (offset - WALHeaderSize) sdiv frameSize)
          in Some (int64 (int64 (frameN * frameSize) + WALHeaderSize)))"

subsection \<open>Errors, results and time\<close>

text \<open>
  Go errors as values. \<open>ErrNotExist\<close> is the error \<^verbatim>\<open>os.IsNotExist\<close> recognises,
  \<open>ErrOS\<close> any other operating system error, \<open>Errorf\<close> a \<^verbatim>\<open>fmt.Errorf\<close> message
  (without its formatted arguments) and \<open>Wrap\<close> a message that wraps an error with
  \<^verbatim>\<open>%w\<close>. A call returns a value, returns an error, or panics.
\<close>

datatype error =
    ErrNotExist
  | EOF
  | ErrUnexpectedEOF
  | ErrOS string
  | Errorf string
  | Wrap string error

datatype 'a result = Ok 'a | Err error | Panic string

definition IsNotExist :: "error \<Rightarrow> bool" where
  "IsNotExist e = (e = ErrNotExist)"

text \<open>
  A \<^verbatim>\<open>time.Time\<close> is the number of nanoseconds since the zero time, so \<^verbatim>\<open>IsZero\<close>
  is equality with 0; \<^verbatim>\<open>time.Since\<close> saturates at the bounds of a 64-bit
  \<^verbatim>\<open>Duration\<close>. The current time is an argument.
\<close>

type_synonym time = int

definition IsZero :: "time \<Rightarrow> bool" where
  "IsZero t = (t = 0)"

definition Since :: "time \<Rightarrow> time \<Rightarrow> int" where
  "Since now t = max (- (2 ^ 63)) (min (2 ^ 63 - 1) (now - t))"

definition MaxInt64 :: int where
  "MaxInt64 = 2 ^ 63 - 1"

subsection \<open>Restore options\<close>

record RestoreOptions =
  OutputPath :: string
  ReplicaName :: string
  Generation :: string
  Index :: int
  Timestamp :: time
  DryRun :: bool
  Verbose :: bool

definition NewRestoreOptions :: RestoreOptions where
  "NewRestoreOptions =
     \<lparr>OutputPath = [], ReplicaName = [], Generation = [], Index = MaxInt64,
      Timestamp = 0, DryRun = False, Verbose = False\<rparr>"

text \<open>
  \<^verbatim>\<open>RestoreReplica\<close>: the option validation is the first statement. Everything after
  it (logging, the output path check, the snapshot and WAL copies, the final rename) is
  the argument \<open>restore\<close>, a function of the options and the world \<open>w\<close> (the replica
  and the file system) that returns the error, if any, and the new world.
\<close>

definition RestoreReplica ::
  "(RestoreOptions \<Rightarrow> 'w \<Rightarrow> error option \<times> 'w) \<Rightarrow> RestoreOptions \<Rightarrow> 'w \<Rightarrow> error option \<times> 'w"
where
  "RestoreReplica restore opt w =
     (if OutputPath opt = [] then (Some (Errorf ''output path required''), w)
      else if Generation opt = [] \<and> Index opt \<noteq> MaxInt64 then
        (Some (Errorf ''must specify generation when restoring to index''), w)
      else if Index opt \<noteq> MaxInt64 \<and> \<not> IsZero (Timestamp opt) then
        (Some (Errorf ''cannot specify index & timestamp to restore''), w)
      else restore opt w)"

subsection \<open>Positions, replicas and the database handle\<close>

record Pos =
  Generation :: string
  Index :: int
  Offset :: int

definition Pos0 :: Pos where
  "Pos0 = \<lparr>Generation = [], Index = 0, Offset = 0\<rparr>"

text \<open>A \<^verbatim>\<open>Replica\<close> is an interface; the model keeps what its methods return.\<close>

record Replica =
  Name :: string
  LastPos :: Pos

record DB =
  pageSize :: int
  MinCheckpointPageN :: int
  MaxCheckpointPageN :: int
  CheckpointInterval :: int
  Replicas :: "Replica list"

record syncInfo =
  generation :: string
  dbModTime :: time
  walSize :: int
  walModTime :: time
  shadowWALPath :: "string \<times> string"
  shadowWALSize :: int
  restart :: bool
  reason :: string

subsection \<open>Checkpoint policy of Sync\<close>

text \<open>
  Modelled from the spec: \<^verbatim>\<open>calcWALSize\<close> is declared outside \<^verbatim>\<open>db.go\<close>. The spec
  counts the pages of a WAL of \<open>s\<close> bytes as \<open>wal_pages s = (s - 32) / (p + 24)\<close>, so a
  WAL of \<open>n\<close> pages has \<open>32 + (24 + p) * n\<close> bytes.
\<close>

definition calcWALSize :: "int \<Rightarrow> int \<Rightarrow> int" where
  "calcWALSize p n = WALHeaderSize + (WALFrameHeaderSize + p) * n"

definition wal_pages :: "int \<Rightarrow> int \<Rightarrow> int" where
  "wal_pages s p = (s - 32) div (p + 24)"

datatype CheckpointMode = CheckpointModePassive | CheckpointModeRestart | CheckpointModeTruncate

text \<open>
  The decision of \<^verbatim>\<open>Sync\<close> (lines 759 to 769) from the size \<open>newWALSize\<close> that
  \<^verbatim>\<open>syncWAL\<close> returned: the flag \<^verbatim>\<open>checkpoint\<close> and \<^verbatim>\<open>checkpointMode\<close>.
\<close>

definition Sync_checkpoint :: "DB \<Rightarrow> time \<Rightarrow> syncInfo \<Rightarrow> int \<Rightarrow> bool \<times> CheckpointMode" where
  "Sync_checkpoint db now info newWALSize =
     (if MaxCheckpointPageN db > 0 \<and>
         newWALSize \<ge> calcWALSize (pageSize db) (MaxCheckpointPageN db)
      then (True, CheckpointModeRestart)
      else if newWALSize \<ge> calcWALSize (pageSize db) (MinCheckpointPageN db)
      then (True, CheckpointModePassive)
      else if CheckpointInterval db > 0 \<and> \<not> IsZero (dbModTime info) \<and>
              Since now (dbModTime info) > CheckpointInterval db \<and>
              newWALSize > calcWALSize (pageSize db) 1
      then (True, CheckpointModePassive)
      else (False, CheckpointModePassive))"

subsection \<open>The meta directory\<close>

text \<open>
  What a read of a path gives: the path does not exist, the read fails with another
  error, or it has a content.
\<close>

datatype 'a io = NotExist | Fails error | Has 'a

type_synonym byte = "8 word"

text \<open>
  The files the engine touches. \<open>db_file\<close> is the size and modification time of the
  database file, \<open>wal_file\<close> the live WAL and its modification time, \<open>generation_file\<close>
  the pointer file \<^verbatim>\<open>generation\<close>, \<open>generations\<close> the entry names of the directory
  \<^verbatim>\<open>generations\<close>, and \<open>wal_dirs g\<close> the entries (name and content, in directory order)
  of \<^verbatim>\<open>generations/g/wal\<close>. \<open>remove_err n\<close> is the error that \<^verbatim>\<open>os.Remove\<close> or
  \<^verbatim>\<open>os.RemoveAll\<close> returns for the entry named \<open>n\<close>, if it fails. A shadow WAL path is
  the pair of its generation and its file name.
\<close>

record filesys =
  db_file :: "(int \<times> time) io"
  wal_file :: "(byte list \<times> time) io"
  generation_file :: "string io"
  generations :: "string list io"
  wal_dirs :: "string \<Rightarrow> (string \<times> byte list) list io"
  remove_err :: "string \<Rightarrow> error option"

text \<open>
  Modelled from the spec: \<^verbatim>\<open>GenerationNameLen\<close>, \<^verbatim>\<open>WALExt\<close>, \<^verbatim>\<open>FormatWALPath\<close> and
  \<^verbatim>\<open>ParseWALPath\<close> are declared outside \<^verbatim>\<open>db.go\<close>. The spec has a generation name
  of 16 hexadecimal characters and a segment file named by the 8 hexadecimal digits of
  its index followed by \<^verbatim>\<open>.wal\<close>.
\<close>

definition GenerationNameLen :: nat where
  "GenerationNameLen = 16"

definition WALExt :: string where
  "WALExt = ''.wal''"

definition hexDigits :: string where
  "hexDigits = ''0123456789abcdef''"

definition hexValue :: "char \<Rightarrow> int option" where
  "hexValue c = map_of (zip hexDigits [0..15]) c"

fun parseHex :: "string \<Rightarrow> int \<Rightarrow> int option" where
  "parseHex [] acc = Some acc"
| "parseHex (c # cs) acc =
     (case hexValue c of None \<Rightarrow> None | Some d \<Rightarrow> parseHex cs (16 * acc + d))"

definition ParseWALPath :: "string \<Rightarrow> int option" where
  "ParseWALPath s =
     (if length s = 12 \<and> drop 8 s = WALExt then parseHex (take 8 s) 0 else None)"

fun hexN :: "nat \<Rightarrow> int \<Rightarrow> string" where
  "hexN 0 n = []"
| "hexN (Suc k) n = hexN k (n div 16) @ [hexDigits ! nat (n mod 16)]"

definition FormatWALPath :: "int \<Rightarrow> string" where
  "FormatWALPath index =
     (let h = dropWhile (\<lambda>c. c = CHR ''0'') (hexN 16 index)
      in replicate (8 - length h) (CHR ''0'') @ h @ WALExt)"

definition HasSuffix :: "string \<Rightarrow> string \<Rightarrow> bool" where
  "HasSuffix s suffix =
     (length suffix \<le> length s \<and> drop (length s - length suffix) s = suffix)"

text \<open>\<^verbatim>\<open>strings.TrimSpace\<close> on the ASCII white space characters.\<close>

definition isSpace :: "char \<Rightarrow> bool" where
  "isSpace c = (c \<in> {CHR 0x09, CHR 0x0A, CHR 0x0B, CHR 0x0C, CHR 0x0D, CHR '' ''})"

definition TrimSpace :: "string \<Rightarrow> string" where
  "TrimSpace s = rev (dropWhile isSpace (rev (dropWhile isSpace s)))"

definition CurrentGeneration :: "filesys \<Rightarrow> string result" where
  "CurrentGeneration fs =
     (case generation_file fs of
        NotExist \<Rightarrow> Ok []
      | Fails e \<Rightarrow> Err e
      | Has buf \<Rightarrow>
          let gen = TrimSpace buf in
          if length gen \<noteq> GenerationNameLen then Ok [] else Ok gen)"

text \<open>
  \<^verbatim>\<open>ShadowWALPath\<close> asserts a non-negative index, \<^verbatim>\<open>GenerationPath\<close> below it a
  non-blank generation; a failed assertion panics.
\<close>

definition ShadowWALPath :: "string \<Rightarrow> int \<Rightarrow> (string \<times> string) result" where
  "ShadowWALPath gen index =
     (if \<not> index \<ge> 0 then Panic ''shadow wal index cannot be negative''
      else if \<not> gen \<noteq> [] then Panic ''generation name required''
      else Ok (gen, FormatWALPath index))"

definition shadow_file :: "filesys \<Rightarrow> string \<times> string \<Rightarrow> byte list io" where
  "shadow_file fs path =
     (case wal_dirs fs (fst path) of
        NotExist \<Rightarrow> NotExist
      | Fails e \<Rightarrow> Fails e
      | Has fis \<Rightarrow> (case map_of fis (snd path) of None \<Rightarrow> NotExist | Some b \<Rightarrow> Has b))"

text \<open>
  \<^verbatim>\<open>CurrentShadowWALIndex\<close>: the highest index among the entries that end in
  \<^verbatim>\<open>.wal\<close> and parse, and the sum of their sizes; \<open>(0, 0)\<close> for a missing directory.
\<close>

fun CurrentShadowWALIndex_loop ::
  "(string \<times> byte list) list \<Rightarrow> int \<Rightarrow> int \<Rightarrow> int \<times> int" where
  "CurrentShadowWALIndex_loop [] index sz = (index, sz)"
| "CurrentShadowWALIndex_loop (fi # fis) index sz =
     (if \<not> HasSuffix (fst fi) WALExt then CurrentShadowWALIndex_loop fis index sz
      else case ParseWALPath (fst fi) of
        None \<Rightarrow> CurrentShadowWALIndex_loop fis index sz
      | Some v \<Rightarrow>
          CurrentShadowWALIndex_loop fis (if v > index then v else index)
            (sz + int (length (snd fi))))"

definition CurrentShadowWALIndex :: "filesys \<Rightarrow> string \<Rightarrow> (int \<times> int) result" where
  "CurrentShadowWALIndex fs gen =
     (if \<not> gen \<noteq> [] then Panic ''generation name required''
      else case wal_dirs fs gen of
        NotExist \<Rightarrow> Ok (0, 0)
      | Fails e \<Rightarrow> Err e
      | Has fis \<Rightarrow> Ok (CurrentShadowWALIndex_loop fis 0 0))"

subsection \<open>Pruning\<close>

text \<open>
  \<^verbatim>\<open>cleanGenerations\<close>: every entry of \<^verbatim>\<open>generations\<close> but the current generation is
  removed with \<^verbatim>\<open>os.RemoveAll\<close>; the first failing removal ends the loop with its
  error.
\<close>

definition RemoveAll_generation :: "string \<Rightarrow> filesys \<Rightarrow> filesys" where
  "RemoveAll_generation n fs =
     fs\<lparr>generations :=
          (case generations fs of Has ns \<Rightarrow> Has (filter (\<lambda>m. m \<noteq> n) ns) | x \<Rightarrow> x),
        wal_dirs := (wal_dirs fs)(n := NotExist)\<rparr>"

fun cleanGenerations_loop :: "string \<Rightarrow> string list \<Rightarrow> filesys \<Rightarrow> unit result \<times> filesys" where
  "cleanGenerations_loop gen [] fs = (Ok (), fs)"
| "cleanGenerations_loop gen (fi # fis) fs =
     (if fi = gen then cleanGenerations_loop gen fis fs
      else case remove_err fs fi of
        Some e \<Rightarrow> (Err e, fs)
      | None \<Rightarrow> cleanGenerations_loop gen fis (RemoveAll_generation fi fs))"

definition cleanGenerations :: "filesys \<Rightarrow> unit result \<times> filesys" where
  "cleanGenerations fs =
     (case CurrentGeneration fs of
        Err e \<Rightarrow> (Err e, fs)
      | Panic m \<Rightarrow> (Panic m, fs)
      | Ok gen \<Rightarrow>
          (case generations fs of
             NotExist \<Rightarrow> (Ok (), fs)
           | Fails e \<Rightarrow> (Err e, fs)
           | Has fis \<Rightarrow> cleanGenerations_loop gen fis fs))"

text \<open>
  \<^verbatim>\<open>cleanWAL\<close>. The first loop computes \<open>min\<close> from the initial \<open>-1\<close>; the second
  removes the entries whose name parses to an index below \<open>min - 1\<close>.
\<close>

fun cleanWAL_min :: "string \<Rightarrow> Replica list \<Rightarrow> int \<Rightarrow> int" where
  "cleanWAL_min gen [] mn = mn"
| "cleanWAL_min gen (r # rs) mn =
     (let pos = LastPos r;
          pos = (if Pos.Generation pos \<noteq> gen then Pos0 else pos);
          mn = (if mn = - 1 \<or> Pos.Index pos < mn then Pos.Index pos else mn)
      in cleanWAL_min gen rs mn)"

definition Remove_shadow :: "string \<Rightarrow> string \<Rightarrow> filesys \<Rightarrow> filesys" where
  "Remove_shadow gen n fs =
     fs\<lparr>wal_dirs := (wal_dirs fs)(gen :=
          (case wal_dirs fs gen of
             Has fis \<Rightarrow> Has (filter (\<lambda>fi. fst fi \<noteq> n) fis)
           | x \<Rightarrow> x))\<rparr>"

fun cleanWAL_loop ::
  "string \<Rightarrow> int \<Rightarrow> (string \<times> byte list) list \<Rightarrow> filesys \<Rightarrow> unit result \<times> filesys" where
  "cleanWAL_loop gen mn [] fs = (Ok (), fs)"
| "cleanWAL_loop gen mn (fi # fis) fs =
     (case ParseWALPath (fst fi) of
        None \<Rightarrow> cleanWAL_loop gen mn fis fs
      | Some idx \<Rightarrow>
          if idx \<ge> mn then cleanWAL_loop gen mn fis fs
          else case remove_err fs (fst fi) of
            Some e \<Rightarrow> (Err e, fs)
          | None \<Rightarrow> cleanWAL_loop gen mn fis (Remove_shadow gen (fst fi) fs))"

definition cleanWAL :: "DB \<Rightarrow> filesys \<Rightarrow> unit result \<times> filesys" where
  "cleanWAL db fs =
     (case CurrentGeneration fs of
        Err e \<Rightarrow> (Err e, fs)
      | Panic m \<Rightarrow> (Panic m, fs)
      | Ok gen \<Rightarrow>
          let mn = cleanWAL_min gen (Replicas db) (- 1) in
          if mn \<le> 0 then (Ok (), fs)
          else
            let mn = mn - 1 in
            if \<not> gen \<noteq> [] then (Panic ''generation name required'', fs)
            else case wal_dirs fs gen of
              NotExist \<Rightarrow> (Ok (), fs)
            | Fails e \<Rightarrow> (Err e, fs)
            | Has fis \<Rightarrow> cleanWAL_loop gen mn fis fs)"

definition clean :: "DB \<Rightarrow> filesys \<Rightarrow> unit result \<times> filesys" where
  "clean db fs =
     (case cleanGenerations fs of
        (Ok u, fs') \<Rightarrow> cleanWAL db fs'
      | (r, fs') \<Rightarrow> (r, fs'))"

text \<open>
  The words of the spec for pruning: the index a replica has reached in the current
  generation (0 for a position of another generation), its minimum over the replicas,
  and a segment file whose index is below a bound.
\<close>

definition replicated_index :: "string \<Rightarrow> Replica \<Rightarrow> int" where
  "replicated_index gen r =
     (if Pos.Generation (LastPos r) \<noteq> gen then 0 else Pos.Index (LastPos r))"

definition min_replicated_index :: "string \<Rightarrow> Replica list \<Rightarrow> int" where
  "min_replicated_index gen rs = Min (replicated_index gen ` set rs)"

definition prunable :: "int \<Rightarrow> string \<Rightarrow> bool" where
  "prunable mn n = (case ParseWALPath n of None \<Rightarrow> False | Some idx \<Rightarrow> idx < mn)"

subsection \<open>Example states\<close>

text \<open>
  A meta directory with the current generation \<open>ex_gen\<close>, a stale generation and four
  segments, and a database with two replicas at the indices 3 and 5.
\<close>

definition ex_gen :: string where
  "ex_gen = ''0123456789abcdef''"

definition ex_fs :: filesys where
  "ex_fs =
     \<lparr>db_file = Has (4096, 1000), wal_file = NotExist,
      generation_file = Has (ex_gen @ [CHR 0x0A]),
      generations = Has [ex_gen, ''aaaaaaaaaaaaaaaa''],
      wal_dirs = (\<lambda>g. if g = ex_gen
         then Has [(''00000000.wal'', []), (''00000001.wal'', []),
                   (''00000002.wal'', []), (''00000003.wal'', [])]
         else NotExist),
      remove_err = (\<lambda>n. None)\<rparr>"

definition ex_db :: DB where
  "ex_db =
     \<lparr>pageSize = 4096, MinCheckpointPageN = 1000, MaxCheckpointPageN = 10000,
      CheckpointInterval = 60000000000,
      Replicas = [\<lparr>Name = ''a'', LastPos = \<lparr>Generation = ex_gen, Index = 3, Offset = 32\<rparr>\<rparr>,
                  \<lparr>Name = ''b'', LastPos = \<lparr>Generation = ex_gen, Index = 5, Offset = 32\<rparr>\<rparr>]\<rparr>"

subsection \<open>The shadow WAL reader\<close>

text \<open>
  The reader keeps its file (here the path it was opened at), the remaining byte count
  \<^verbatim>\<open>n\<close> and its position \<^verbatim>\<open>pos\<close>; \<open>N\<close> is the method \<^verbatim>\<open>N()\<close>.
\<close>

record ShadowWALReader =
  rd_f :: "string \<times> string"
  rd_n :: int
  rd_pos :: Pos

definition N :: "ShadowWALReader \<Rightarrow> int" where
  "N r = rd_n r"

text \<open>
  The function deferred by \<^verbatim>\<open>shadowWALReader\<close> after a successful \<^verbatim>\<open>os.Open\<close>:
  \<^verbatim>\<open>if err != nil { r.Close() }\<close>, where \<^verbatim>\<open>r\<close> is the named result and \<^verbatim>\<open>Close\<close> is
  \<^verbatim>\<open>return r.f.Close()\<close>. With a nil \<^verbatim>\<open>r\<close> the read of \<^verbatim>\<open>r.f\<close> panics; otherwise the
  error is returned.
\<close>

definition shadowWALReader_deferred :: "ShadowWALReader option \<Rightarrow> error \<Rightarrow> ShadowWALReader result" where
  "shadowWALReader_deferred r err =
     (case r of
        None \<Rightarrow> Panic ''invalid memory address or nil pointer dereference''
      | Some x \<Rightarrow> Err err)"

text \<open>
  \<^verbatim>\<open>shadowWALReader\<close>. An error of \<^verbatim>\<open>os.Open\<close> is returned before the \<^verbatim>\<open>defer\<close>
  statement; every later error return is \<^verbatim>\<open>return nil, err\<close> and runs the deferred
  function with \<^verbatim>\<open>r = nil\<close>. \<^verbatim>\<open>Seek\<close> fails on a negative offset.
\<close>

definition shadowWALReader :: "DB \<Rightarrow> filesys \<Rightarrow> Pos \<Rightarrow> ShadowWALReader result" where
  "shadowWALReader db fs pos =
     (case ShadowWALPath (Pos.Generation pos) (Pos.Index pos) of
        Panic m \<Rightarrow> Panic m
      | Err e \<Rightarrow> Err e
      | Ok filename \<Rightarrow>
          (case shadow_file fs filename of
             NotExist \<Rightarrow> Err ErrNotExist
           | Fails e \<Rightarrow> Err e
           | Has b \<Rightarrow>
               (case frameAlign (int (length b)) (pageSize db) of
                  None \<Rightarrow> Panic ''frameAlign(): page size must be non-negative''
                | Some fileSize \<Rightarrow>
                    if Offset pos > fileSize then
                      shadowWALReader_deferred None (Errorf ''wal reader offset too high'')
                    else if Offset pos < 0 then
                      shadowWALReader_deferred None (ErrOS ''seek: invalid argument'')
                    else Ok \<lparr>rd_f = filename, rd_n = fileSize - Offset pos, rd_pos = pos\<rparr>)))"

text \<open>The method \<^verbatim>\<open>DB.ShadowWALReader\<close>.\<close>

definition DB_ShadowWALReader :: "DB \<Rightarrow> filesys \<Rightarrow> Pos \<Rightarrow> ShadowWALReader result" where
  "DB_ShadowWALReader db fs pos =
     (case shadowWALReader db fs pos of
        Err e \<Rightarrow> Err e
      | Panic m \<Rightarrow> Panic m
      | Ok r \<Rightarrow>
          if N r > 0 then Ok r
          else
            let pos = pos\<lparr>Pos.Index := Pos.Index pos + 1, Offset := 0\<rparr> in
            (case shadowWALReader db fs pos of
               Err e \<Rightarrow> if IsNotExist e then Err EOF else Err e
             | x \<Rightarrow> x))"

text \<open>A generation whose segment 0 is a 32-byte header and whose segment 1 is missing.\<close>

definition ex_hdr :: "byte list" where
  "ex_hdr = [0x37, 0x7f, 0x06, 0x82, 0x00, 0x2d, 0xe2, 0x18, 0x00, 0x00, 0x10, 0x00,
             0x00, 0x00, 0x00, 0x00, 0x0a, 0x0b, 0x0c, 0x0d, 0x01, 0x02, 0x03, 0x04,
             0xe1, 0xf3, 0x0e, 0x1d, 0x9d, 0xdd, 0xe7, 0xc3]"

definition ex_fs_hdr :: filesys where
  "ex_fs_hdr = ex_fs\<lparr>wal_dirs := (\<lambda>g. if g = ex_gen then Has [(''00000000.wal'', ex_hdr)]
                                      else NotExist)\<rparr>"

subsection \<open>WAL bytes\<close>

datatype ByteOrder = LittleEndian | BigEndian

text \<open>
  \<^verbatim>\<open>binary.BigEndian.Uint32(b)\<close> reads the first four bytes of \<open>b\<close>; every call in
  \<^verbatim>\<open>db.go\<close> passes a slice of at least four bytes.
\<close>

definition BigEndian_Uint32 :: "byte list \<Rightarrow> 32 word" where
  "BigEndian_Uint32 b = foldl (\<lambda>acc x. push_bit 8 acc OR ucast x) 0 (take 4 b)"

definition headerByteOrder :: "byte list \<Rightarrow> ByteOrder result" where
  "headerByteOrder hdr =
     (let magic = BigEndian_Uint32 hdr in
      if magic = 0x377f0682 then Ok LittleEndian
      else if magic = 0x377f0683 then Ok BigEndian
      else Err (Errorf ''invalid wal header magic''))"

text \<open>
  \<^verbatim>\<open>Checksum\<close> is declared outside \<^verbatim>\<open>db.go\<close>; it is an argument \<open>C\<close> of the functions
  below: from a byte order, a running checksum and bytes to the next running checksum.
\<close>

type_synonym checksum = "ByteOrder \<Rightarrow> 32 word \<Rightarrow> 32 word \<Rightarrow> byte list \<Rightarrow> 32 word \<times> 32 word"

definition WALHeaderChecksumOffset :: int where
  "WALHeaderChecksumOffset = 24"

definition WALFrameHeaderChecksumOffset :: int where
  "WALFrameHeaderChecksumOffset = 16"

text \<open>
  \<^verbatim>\<open>f.ReadAt(b, off)\<close> with \<open>n\<close> the length of \<open>b\<close>: an error on a negative offset,
  \<open>EOF\<close> when fewer than \<open>n\<close> bytes follow the offset.
\<close>

definition ReadAt :: "byte list \<Rightarrow> nat \<Rightarrow> int \<Rightarrow> byte list result" where
  "ReadAt file n off =
     (if off < 0 then Err (ErrOS ''negative offset'')
      else if int (length file) < off + int n then Err EOF
      else Ok (take n (drop (nat off) file)))"

definition readLastChecksumFrom :: "byte list \<Rightarrow> int \<Rightarrow> (32 word \<times> 32 word) result" where
  "readLastChecksumFrom file p =
     (case frameAlign (int (length file)) p of
        None \<Rightarrow> Panic ''frameAlign(): page size must be non-negative''
      | Some sz \<Rightarrow>
          let offset =
            (if int (length file) > WALHeaderSize
             then sz - p - WALFrameHeaderSize + WALFrameHeaderChecksumOffset
             else WALHeaderChecksumOffset)
          in case ReadAt file 8 offset of
               Err e \<Rightarrow> Err e
             | Panic m \<Rightarrow> Panic m
             | Ok b \<Rightarrow> Ok (BigEndian_Uint32 b, BigEndian_Uint32 (drop 4 b)))"

subsection \<open>Frame copy\<close>

text \<open>
  The loop of \<^verbatim>\<open>copyToShadowWAL\<close>. \<open>r\<close> is the unread rest of the live WAL, \<open>p\<close> the
  page size (the buffer has \<open>p + 24\<close> bytes), \<open>chk\<close> the running checksum, \<open>tmpSz\<close> the
  cursor and \<open>lastCommitSize\<close> the cursor after the last commit frame seen. The loop
  breaks on a short read, on a salt mismatch and on a checksum mismatch, and its value
  is \<open>lastCommitSize\<close>.
\<close>

function copyToShadowWAL_loop ::
  "checksum \<Rightarrow> ByteOrder \<Rightarrow> 32 word \<Rightarrow> 32 word \<Rightarrow> nat \<Rightarrow> byte list
     \<Rightarrow> 32 word \<times> 32 word \<Rightarrow> int \<Rightarrow> int \<Rightarrow> int" where
  "copyToShadowWAL_loop C bo hsalt0 hsalt1 p r chk tmpSz lastCommitSize =
     (if length r < p + 24 then lastCommitSize
      else
        let buf = take (p + 24) r;
            salt0 = BigEndian_Uint32 (drop 8 buf);
            salt1 = BigEndian_Uint32 (drop 12 buf)
        in
        if salt0 \<noteq> hsalt0 \<or> salt1 \<noteq> hsalt1 then lastCommitSize
        else
          let fchksum0 = BigEndian_Uint32 (drop 16 buf);
              fchksum1 = BigEndian_Uint32 (drop 20 buf);
              chk = C bo (fst chk) (snd chk) (take 8 buf);
              chk = C bo (fst chk) (snd chk) (drop 24 buf)
          in
          if fst chk \<noteq> fchksum0 \<or> snd chk \<noteq> fchksum1 then lastCommitSize
          else
            let tmpSz = tmpSz + int (length buf);
                newDBSize = BigEndian_Uint32 (drop 4 buf);
                lastCommitSize = (if newDBSize \<noteq> 0 then tmpSz else lastCommitSize)
            in copyToShadowWAL_loop C bo hsalt0 hsalt1 p (drop (p + 24) r) chk tmpSz
                 lastCommitSize)"
  by pat_completeness auto
termination
  by (relation "measure (\<lambda>(C, bo, hsalt0, hsalt1, p, r, chk, tmpSz, lastCommitSize). length r)")
     auto

declare copyToShadowWAL_loop.simps [simp del]

text \<open>
  Writing \<open>b\<close> into a file at offset \<open>off\<close> (at most the length of the file), and
  storing a segment file in its \<^verbatim>\<open>wal\<close> directory.
\<close>

definition WriteAt :: "byte list \<Rightarrow> nat \<Rightarrow> byte list \<Rightarrow> byte list" where
  "WriteAt file off b = take off file @ b @ drop (off + length b) file"

definition write_shadow_file :: "filesys \<Rightarrow> string \<times> string \<Rightarrow> byte list \<Rightarrow> filesys" where
  "write_shadow_file fs path b =
     fs\<lparr>wal_dirs := (wal_dirs fs)(fst path :=
          Has (AList.update (snd path) b
                 (case wal_dirs fs (fst path) of Has fis \<Rightarrow> fis | x \<Rightarrow> [])))\<rparr>"

text \<open>
  \<^verbatim>\<open>copyToShadowWAL\<close>: the result and the file system after it. \<^verbatim>\<open>io.CopyN\<close> fails
  with \<open>EOF\<close> after a partial write when the live WAL has fewer bytes than asked for.
\<close>

definition copyToShadowWAL ::
  "checksum \<Rightarrow> DB \<Rightarrow> filesys \<Rightarrow> string \<times> string \<Rightarrow> int result \<times> filesys" where
  "copyToShadowWAL C db fs filename =
     (case wal_file fs of
        NotExist \<Rightarrow> (Err ErrNotExist, fs)
      | Fails e \<Rightarrow> (Err e, fs)
      | Has rt \<Rightarrow>
     (case shadow_file fs filename of
        NotExist \<Rightarrow> (Err ErrNotExist, fs)
      | Fails e \<Rightarrow> (Err e, fs)
      | Has w \<Rightarrow>
     (case frameAlign (int (length w)) (pageSize db) of
        None \<Rightarrow> (Panic ''frameAlign(): page size must be non-negative'', fs)
      | Some origSize \<Rightarrow>
          if length w < 32 then
            (Err (Wrap ''read header'' (if w = [] then EOF else ErrUnexpectedEOF)), fs)
          else
            let r = fst rt;
                hdr = take 32 w;
                hsalt0 = BigEndian_Uint32 (drop 16 hdr);
                hsalt1 = BigEndian_Uint32 (drop 20 hdr)
            in
     (case headerByteOrder hdr of
        Err e \<Rightarrow> (Err e, fs)
      | Panic m \<Rightarrow> (Panic m, fs)
      | Ok bo \<Rightarrow>
     (case readLastChecksumFrom w (pageSize db) of
        Err e \<Rightarrow> (Err (Wrap ''last checksum'' e), fs)
      | Panic m \<Rightarrow> (Panic m, fs)
      | Ok chk \<Rightarrow>
          let lastCommitSize =
                copyToShadowWAL_loop C bo hsalt0 hsalt1 (nat (pageSize db))
                  (drop (nat origSize) r) chk origSize origSize;
              b = take (nat (lastCommitSize - origSize)) (drop (nat origSize) r);
              fs' = write_shadow_file fs filename (WriteAt w (nat origSize) b)
          in
          if int (length b) < lastCommitSize - origSize then (Err EOF, fs')
          else (Ok lastCommitSize, fs'))))))"

text \<open>
  Names for the tests of one loop iteration: the next frame of \<open>r\<close> is read in full, its
  salts are the header's and its checksum follows from \<open>chk\<close>; the running checksum
  after it; and its commit marker (a non-zero database size after commit).
\<close>

definition frame_accepted ::
  "checksum \<Rightarrow> ByteOrder \<Rightarrow> 32 word \<Rightarrow> 32 word \<Rightarrow> nat \<Rightarrow> byte list \<Rightarrow> 32 word \<times> 32 word \<Rightarrow> bool" where
  "frame_accepted C bo hsalt0 hsalt1 p r chk =
     (let buf = take (p + 24) r;
          chk1 = C bo (fst chk) (snd chk) (take 8 buf);
          chk2 = C bo (fst chk1) (snd chk1) (drop 24 buf)
      in p + 24 \<le> length r
         \<and> BigEndian_Uint32 (drop 8 buf) = hsalt0 \<and> BigEndian_Uint32 (drop 12 buf) = hsalt1
         \<and> fst chk2 = BigEndian_Uint32 (drop 16 buf)
         \<and> snd chk2 = BigEndian_Uint32 (drop 20 buf))"

definition frame_chk ::
  "checksum \<Rightarrow> ByteOrder \<Rightarrow> nat \<Rightarrow> byte list \<Rightarrow> 32 word \<times> 32 word \<Rightarrow> 32 word \<times> 32 word" where
  "frame_chk C bo p r chk =
     (let buf = take (p + 24) r;
          chk1 = C bo (fst chk) (snd chk) (take 8 buf)
      in C bo (fst chk1) (snd chk1) (drop 24 buf))"

definition frame_commit :: "nat \<Rightarrow> byte list \<Rightarrow> bool" where
  "frame_commit p r = (BigEndian_Uint32 (drop 4 (take (p + 24) r)) \<noteq> 0)"

text \<open>
  The invariant of the spec for a shadow segment of page size \<open>p\<close>: a header, then
  whole frames, and the last frame, if there is one, is a commit frame.
\<close>

definition commit_bounded :: "nat \<Rightarrow> byte list \<Rightarrow> bool" where
  "commit_bounded p w =
     (32 \<le> length w \<and> (length w - 32) mod (p + 24) = 0
      \<and> (length w = 32 \<or> frame_commit p (drop (length w - (p + 24)) w)))"

subsection \<open>An example WAL\<close>

text \<open>
  For the examples, the checksum of the SQLite WAL format as an instance of \<open>C\<close>: over
  units of eight bytes, \<open>s0 += x0 + s1\<close> and \<open>s1 += x1 + s0\<close>, the two words of a unit
  read in the byte order of the header.
\<close>

definition LittleEndian_Uint32 :: "byte list \<Rightarrow> 32 word" where
  "LittleEndian_Uint32 b = foldr (\<lambda>x acc. push_bit 8 acc OR ucast x) (take 4 b) 0"

definition Uint32 :: "ByteOrder \<Rightarrow> byte list \<Rightarrow> 32 word" where
  "Uint32 bo b =
     (case bo of LittleEndian \<Rightarrow> LittleEndian_Uint32 b | BigEndian \<Rightarrow> BigEndian_Uint32 b)"

fun sqlite_Checksum :: checksum where
  "sqlite_Checksum bo s0 s1 (a # b # c # d # e # f # g # h # rest) =
     (let s0 = s0 + Uint32 bo [a, b, c, d] + s1;
          s1 = s1 + Uint32 bo [e, f, g, h] + s0
      in sqlite_Checksum bo s0 s1 rest)"
| "sqlite_Checksum bo s0 s1 rest = (s0, s1)"

text \<open>
  A database of page size 512. Its WAL header \<open>ex_hdr512\<close> carries the little-endian
  magic, the salts \<open>0a0b0c0d 01020304\<close> and its own checksum; \<open>ex_wal\<close> holds three
  frames with a valid checksum chain, of which only the second is a commit frame.
  \<open>ex_wal_zero_seed\<close> holds one commit frame whose stored checksum was computed from
  the seed \<open>(0, 0)\<close> instead of the header checksum.
\<close>

definition ex_db512 :: DB where
  "ex_db512 = ex_db\<lparr>pageSize := 512\<rparr>"

definition ex_hdr512 :: "byte list" where
  "ex_hdr512 = [0x37, 0x7f, 0x06, 0x82, 0x00, 0x2d, 0xe2, 0x18, 0x00, 0x00, 0x02, 0x00,
                0x00, 0x00, 0x00, 0x00, 0x0a, 0x0b, 0x0c, 0x0d, 0x01, 0x02, 0x03, 0x04,
                0xe1, 0xd7, 0x0e, 0x1d, 0x9d, 0xb3, 0xe7, 0xc3]"

definition ex_frame1 :: "byte list" where
  "ex_frame1 = [0, 0, 0, 1, 0, 0, 0, 0, 0x0a, 0x0b, 0x0c, 0x0d, 0x01, 0x02, 0x03, 0x04,
                11, 251, 210, 176, 189, 207, 216, 236] @ replicate 512 1"

definition ex_frame2 :: "byte list" where
  "ex_frame2 = [0, 0, 0, 2, 0, 0, 0, 2, 0x0a, 0x0b, 0x0c, 0x0d, 0x01, 0x02, 0x03, 0x04,
                175, 54, 149, 22, 207, 202, 46, 104] @ replicate 512 2"

definition ex_frame3 :: "byte list" where
  "ex_frame3 = [0, 0, 0, 3, 0, 0, 0, 0, 0x0a, 0x0b, 0x0c, 0x0d, 0x01, 0x02, 0x03, 0x04,
                117, 233, 202, 231, 226, 137, 247, 244] @ replicate 512 3"

definition ex_frame_zero_seed :: "byte list" where
  "ex_frame_zero_seed =
     [0, 0, 0, 1, 0, 0, 0, 2, 0x0a, 0x0b, 0x0c, 0x0d, 0x01, 0x02, 0x03, 0x04,
      14, 87, 171, 225, 139, 38, 155, 166] @ replicate 512 1"

definition ex_wal :: "byte list" where
  "ex_wal = ex_hdr512 @ ex_frame1 @ ex_frame2 @ ex_frame3"

definition ex_wal_zero_seed :: "byte list" where
  "ex_wal_zero_seed = ex_hdr512 @ ex_frame_zero_seed"

definition ex_fs512 :: "byte list \<Rightarrow> filesys" where
  "ex_fs512 wal =
     ex_fs\<lparr>wal_file := Has (wal, 2000),
           wal_dirs := (\<lambda>g. if g = ex_gen then Has [(''00000000.wal'', ex_hdr512)]
                            else NotExist)\<rparr>"

text \<open>
  The frames the loop scans, in the words of the spec: \<open>chk_after i\<close> is the running
  checksum after \<open>i\<close> frames of \<open>r\<close>, and \<open>scanned k\<close> holds when each of the first \<open>k\<close>
  frames of \<open>r\<close> is read in full, carries the header salts and verifies against the
  running checksum, so that the scan does not stop before frame \<open>k\<close>.
\<close>

primrec chk_after ::
  "checksum \<Rightarrow> ByteOrder \<Rightarrow> nat \<Rightarrow> byte list \<Rightarrow> 32 word \<times> 32 word \<Rightarrow> nat \<Rightarrow> 32 word \<times> 32 word" where
  "chk_after C bo p r chk 0 = chk"
| "chk_after C bo p r chk (Suc i) =
     frame_chk C bo p (drop (i * (p + 24)) r) (chk_after C bo p r chk i)"

definition scanned ::
  "checksum \<Rightarrow> ByteOrder \<Rightarrow> 32 word \<Rightarrow> 32 word \<Rightarrow> nat \<Rightarrow> byte list \<Rightarrow> 32 word \<times> 32 word \<Rightarrow> nat \<Rightarrow> bool" where
  "scanned C bo hsalt0 hsalt1 p r chk k =
     list_all (\<lambda>i. frame_accepted C bo hsalt0 hsalt1 p (drop (i * (p + 24)) r)
                    (chk_after C bo p r chk i)) [0..<k]"

text \<open>
  \<open>last_commit k\<close>: frame \<open>k\<close> (counted from 1) is the last scanned commit frame of
  \<open>r\<close>; \<open>k = 0\<close> when no scanned frame is a commit frame.
\<close>

definition last_commit ::
  "checksum \<Rightarrow> ByteOrder \<Rightarrow> 32 word \<Rightarrow> 32 word \<Rightarrow> nat \<Rightarrow> byte list \<Rightarrow> 32 word \<times> 32 word \<Rightarrow> nat \<Rightarrow> bool" where
  "last_commit C bo hsalt0 hsalt1 p r chk k =
     (scanned C bo hsalt0 hsalt1 p r chk k
      \<and> (k = 0 \<or> frame_commit p (drop ((k - 1) * (p + 24)) r))
      \<and> (\<forall>j>k. scanned C bo hsalt0 hsalt1 p r chk j
                 \<longrightarrow> \<not> frame_commit p (drop ((j - 1) * (p + 24)) r)))"

text \<open>
  The segments the engine writes: \<^verbatim>\<open>initShadowWALFile\<close> writes a 32-byte header and
  every later change of a segment is a successful \<^verbatim>\<open>copyToShadowWAL\<close> on it, whatever
  the live WAL holds at that time.
\<close>

inductive shadow_segment :: "checksum \<Rightarrow> DB \<Rightarrow> byte list \<Rightarrow> bool" for C db where
  header: "length hdr = 32 \<Longrightarrow> shadow_segment C db hdr"
| copy: "shadow_segment C db w \<Longrightarrow> int (length w) < 2 ^ 63 \<Longrightarrow>
         wal_file fs = Has (r, mt) \<Longrightarrow> shadow_file fs filename = Has w \<Longrightarrow>
         copyToShadowWAL C db fs filename = (Ok n, fs') \<Longrightarrow>
         shadow_file fs' filename = Has w' \<Longrightarrow> shadow_segment C db w'"

subsection \<open>Verification of the shadow WAL\<close>

text \<open>
  Modelled from the spec: \<^verbatim>\<open>readWALHeader\<close> and \<^verbatim>\<open>readFileAt\<close> are declared outside
  \<^verbatim>\<open>db.go\<close>. The first reads the 32-byte header of a WAL file, the second the \<open>n\<close>
  bytes of a file at an offset (the last full frame, for the byte-for-byte comparison);
  both fail on a missing or too short file.
\<close>

definition readWALHeader :: "byte list io \<Rightarrow> byte list result" where
  "readWALHeader file =
     (case file of
        NotExist \<Rightarrow> Err ErrNotExist
      | Fails e \<Rightarrow> Err e
      | Has b \<Rightarrow>
          if b = [] then Err EOF
          else if length b < 32 then Err ErrUnexpectedEOF
          else Ok (take 32 b))"

definition readFileAt :: "byte list io \<Rightarrow> int \<Rightarrow> int \<Rightarrow> byte list result" where
  "readFileAt file offset n =
     (case file of
        NotExist \<Rightarrow> Err ErrNotExist
      | Fails e \<Rightarrow> Err e
      | Has b \<Rightarrow>
          if n < 0 then Panic ''makeslice: len out of range''
          else case ReadAt b (nat n) offset of
                 Err e \<Rightarrow> Err (if e = EOF \<and> offset < int (length b) then ErrUnexpectedEOF else e)
               | x \<Rightarrow> x)"

definition MaxIndex :: int where
  "MaxIndex = 0x7FFFFFFF"

text \<open>The zero value of \<^verbatim>\<open>syncInfo\<close>.\<close>

definition syncInfo0 :: syncInfo where
  "syncInfo0 =
     \<lparr>generation = [], dbModTime = 0, walSize = 0, walModTime = 0, shadowWALPath = ([], []),
      shadowWALSize = 0, restart = False, reason = []\<rparr>"

text \<open>
  \<^verbatim>\<open>verify\<close>, in three parts: the comparison of the last synced frame (lines 900 to
  913), the checks on the current segment (lines 858 to 898), and the function from its
  start. \<open>wal\<close> is the content of the live WAL, which cannot change during the call: the
  caller holds the write lock.
\<close>

definition verify_lastPage :: "DB \<Rightarrow> byte list \<Rightarrow> byte list \<Rightarrow> syncInfo \<Rightarrow> syncInfo result" where
  "verify_lastPage db wal shadow info =
     (if shadowWALSize info > WALHeaderSize then
        let offset = shadowWALSize info - (pageSize db + WALFrameHeaderSize) in
        (case readFileAt (Has wal) offset (pageSize db + WALFrameHeaderSize) of
           Err e \<Rightarrow> Err (Wrap ''cannot read last synced wal page'' e)
         | Panic m \<Rightarrow> Panic m
         | Ok buf0 \<Rightarrow>
             (case readFileAt (Has shadow) offset (pageSize db + WALFrameHeaderSize) of
                Err e \<Rightarrow> Err (Wrap ''cannot read last synced shadow wal page'' e)
              | Panic m \<Rightarrow> Panic m
              | Ok buf1 \<Rightarrow>
                  if buf0 \<noteq> buf1
                  then Ok (info\<lparr>reason := ''wal overwritten by another process''\<rparr>)
                  else Ok info))
      else Ok info)"

definition verify_shadow ::
  "DB \<Rightarrow> filesys \<Rightarrow> byte list \<Rightarrow> int \<Rightarrow> syncInfo \<Rightarrow> syncInfo result" where
  "verify_shadow db fs wal index info =
     (case ShadowWALPath (generation info) index of
        Panic m \<Rightarrow> Panic m
      | Err e \<Rightarrow> Err e
      | Ok path \<Rightarrow>
          let info = info\<lparr>shadowWALPath := path\<rparr> in
          (case shadow_file fs path of
             NotExist \<Rightarrow> Ok (info\<lparr>reason := ''no shadow wal''\<rparr>)
           | Fails e \<Rightarrow> Err e
           | Has shadow \<Rightarrow>
               (case frameAlign (int (length shadow)) (pageSize db) of
                  None \<Rightarrow> Panic ''frameAlign(): page size must be non-negative''
                | Some sz \<Rightarrow>
                    let info = info\<lparr>shadowWALSize := sz\<rparr> in
                    if shadowWALSize info < WALHeaderSize
                    then Ok (info\<lparr>reason := ''short shadow wal''\<rparr>)
                    else if shadowWALSize info > walSize info
                    then Ok (info\<lparr>reason := ''wal truncated by another process''\<rparr>)
                    else
                      (case readWALHeader (Has wal) of
                         Err e \<Rightarrow> Err (Wrap ''cannot read wal header'' e)
                       | Panic m \<Rightarrow> Panic m
                       | Ok hdr0 \<Rightarrow>
                           (case readWALHeader (Has shadow) of
                              Err e \<Rightarrow> Err (Wrap ''cannot read shadow wal header'' e)
                            | Panic m \<Rightarrow> Panic m
                            | Ok hdr1 \<Rightarrow>
                                let info = (if hdr0 \<noteq> hdr1
                                            then info\<lparr>restart := hdr0 \<noteq> hdr1\<rparr> else info)
                                in
                                if shadowWALSize info = WALHeaderSize \<and> restart info
                                then Ok (info\<lparr>reason := ''wal header only, mismatched''\<rparr>)
                                else verify_lastPage db wal shadow info)))))"

definition verify :: "DB \<Rightarrow> filesys \<Rightarrow> syncInfo result" where
  "verify db fs =
     (case CurrentGeneration fs of
        Err e \<Rightarrow> Err (Wrap ''cannot find current generation'' e)
      | Panic m \<Rightarrow> Panic m
      | Ok gen \<Rightarrow>
          if gen = [] then Ok (syncInfo0\<lparr>reason := ''no generation exists''\<rparr>)
          else
            (case db_file fs of
               NotExist \<Rightarrow> Err ErrNotExist
             | Fails e \<Rightarrow> Err e
             | Has dbfi \<Rightarrow>
                 (case wal_file fs of
                    NotExist \<Rightarrow> Err ErrNotExist
                  | Fails e \<Rightarrow> Err e
                  | Has walfi \<Rightarrow>
                      let info = syncInfo0\<lparr>generation := gen, dbModTime := snd dbfi,
                                   walSize := int (length (fst walfi)), walModTime := snd walfi\<rparr>
                      in
                      (case CurrentShadowWALIndex fs gen of
                         Err e \<Rightarrow> Err (Wrap ''cannot determine shadow WAL index'' e)
                       | Panic m \<Rightarrow> Panic m
                       | Ok ix \<Rightarrow>
                           if fst ix \<ge> MaxIndex
                           then Ok (info\<lparr>reason := ''max index exceeded''\<rparr>)
                           else verify_shadow db fs (fst walfi) (fst ix) info))))"

text \<open>
  The reasons in the words of the spec, as a function of the current generation name
  (empty when there is none), the current shadow index, the current segment file (if it
  exists) and the live WAL, for page size \<open>p\<close>; \<open>aligned_size\<close> is the frame-aligned
  size of the spec.
\<close>

definition aligned_size :: "int \<Rightarrow> int \<Rightarrow> int" where
  "aligned_size s p = (if s < 32 then 0 else 32 + ((s - 32) div (p + 24)) * (p + 24))"

definition last_frame :: "int \<Rightarrow> byte list \<Rightarrow> int \<Rightarrow> byte list" where
  "last_frame p b sz = take (nat (p + 24)) (drop (nat (sz - (p + 24))) b)"

definition verify_reason :: "int \<Rightarrow> string \<Rightarrow> int \<Rightarrow> byte list option \<Rightarrow> byte list \<Rightarrow> string" where
  "verify_reason p gen index shadow wal =
     (if gen = [] then ''no generation exists''
      else if index \<ge> MaxIndex then ''max index exceeded''
      else case shadow of
        None \<Rightarrow> ''no shadow wal''
      | Some sh \<Rightarrow>
          let sz = aligned_size (int (length sh)) p in
          if sz < 32 then ''short shadow wal''
          else if sz > int (length wal) then ''wal truncated by another process''
          else if take 32 wal \<noteq> take 32 sh \<and> sz = 32 then ''wal header only, mismatched''
          else if sz > 32 \<and> last_frame p wal sz \<noteq> last_frame p sh sz
          then ''wal overwritten by another process''
          else [])"

subsection \<open>Starting a generation\<close>

text \<open>
  \<^verbatim>\<open>initShadowWALFile\<close>: the header of the live WAL is read and its checksum verified,
  the header is written to the new segment, and the frames available are copied.
  \<^verbatim>\<open>mkdirAll\<close> and the file writes succeed in this model.
\<close>

definition initShadowWALFile ::
  "checksum \<Rightarrow> DB \<Rightarrow> filesys \<Rightarrow> string \<times> string \<Rightarrow> int result \<times> filesys" where
  "initShadowWALFile C db fs filename =
     (case readWALHeader (case wal_file fs of Has walfi \<Rightarrow> Has (fst walfi)
                          | NotExist \<Rightarrow> NotExist | Fails e \<Rightarrow> Fails e) of
        Err e \<Rightarrow> (Err (Wrap ''read header'' e), fs)
      | Panic m \<Rightarrow> (Panic m, fs)
      | Ok hdr \<Rightarrow>
          (case headerByteOrder hdr of
             Err e \<Rightarrow> (Err e, fs)
           | Panic m \<Rightarrow> (Panic m, fs)
           | Ok bo \<Rightarrow>
               let s0 = BigEndian_Uint32 (drop 24 hdr);
                   s1 = BigEndian_Uint32 (drop 28 hdr);
                   v = C bo 0 0 (take 24 hdr)
               in
               if fst v \<noteq> s0 \<or> snd v \<noteq> s1
               then (Err (Errorf ''invalid header checksum''), fs)
               else
                 (case copyToShadowWAL C db (write_shadow_file fs filename hdr) filename of
                    (Err e, fs') \<Rightarrow> (Err (Wrap ''cannot copy to new shadow wal'' e), fs')
                  | (r, fs') \<Rightarrow> (r, fs'))))"

text \<open>
  \<^verbatim>\<open>createGeneration\<close>. \<open>newgen\<close> is the generation name, the hexadecimal form of the
  eight random bytes. The directory is made, segment 0 initialised, the pointer file
  replaced by the name and a newline, and old files are cleaned.
\<close>

definition mkdir_generation :: "string \<Rightarrow> filesys \<Rightarrow> filesys" where
  "mkdir_generation g fs =
     fs\<lparr>generations :=
          Has (case generations fs of
                 Has ns \<Rightarrow> if g \<in> set ns then ns else ns @ [g]
               | x \<Rightarrow> [g])\<rparr>"

definition createGeneration ::
  "checksum \<Rightarrow> DB \<Rightarrow> string \<Rightarrow> filesys \<Rightarrow> string result \<times> filesys" where
  "createGeneration C db newgen fs =
     (let fs1 = mkdir_generation newgen fs in
      case ShadowWALPath newgen 0 of
        Panic m \<Rightarrow> (Panic m, fs1)
      | Err e \<Rightarrow> (Err e, fs1)
      | Ok path \<Rightarrow>
          (case initShadowWALFile C db fs1 path of
             (Err e, fs2) \<Rightarrow> (Err (Wrap ''initialize shadow wal'' e), fs2)
           | (Panic m, fs2) \<Rightarrow> (Panic m, fs2)
           | (Ok n, fs2) \<Rightarrow>
               (case clean db (fs2\<lparr>generation_file := Has (newgen @ [CHR 0x0A])\<rparr>) of
                  (Err e, fs3) \<Rightarrow> (Err e, fs3)
                | (Panic m, fs3) \<Rightarrow> (Panic m, fs3)
                | (Ok u, fs3) \<Rightarrow> (Ok newgen, fs3))))"

text \<open>
  \<^verbatim>\<open>Sync\<close> from the call of \<^verbatim>\<open>verify\<close> to the reset of the sync information (lines
  725 to 751): the result is the \<^verbatim>\<open>syncInfo\<close> that \<^verbatim>\<open>syncWAL\<close> receives.
\<close>

definition Sync_verify ::
  "checksum \<Rightarrow> DB \<Rightarrow> string \<Rightarrow> filesys \<Rightarrow> syncInfo result \<times> filesys" where
  "Sync_verify C db newgen fs =
     (case verify db fs of
        Err e \<Rightarrow> (Err (Wrap ''cannot verify wal state'' e), fs)
      | Panic m \<Rightarrow> (Panic m, fs)
      | Ok info \<Rightarrow>
          if reason info \<noteq> [] then
            (case createGeneration C db newgen fs of
               (Err e, fs') \<Rightarrow> (Err (Wrap ''create generation'' e), fs')
             | (Panic m, fs') \<Rightarrow> (Panic m, fs')
             | (Ok g, fs') \<Rightarrow>
                 (case ShadowWALPath g 0 of
                    Panic m \<Rightarrow> (Panic m, fs')
                  | Err e \<Rightarrow> (Err e, fs')
                  | Ok path \<Rightarrow>
                      (Ok (info\<lparr>generation := g, shadowWALPath := path,
                                shadowWALSize := WALHeaderSize, restart := False,
                                reason := []\<rparr>), fs')))
          else (Ok info, fs))"

text \<open>
  A meta directory whose segment 0 holds two frames while the live WAL has been cut
  back to its header.
\<close>

definition ex_fs_truncated :: filesys where
  "ex_fs_truncated =
     \<lparr>db_file = Has (4096, 1000), wal_file = Has (ex_hdr512, 2000),
      generation_file = Has (ex_gen @ [CHR 0x0A]),
      generations = Has [ex_gen],
      wal_dirs = (\<lambda>g. if g = ex_gen
         then Has [(''00000000.wal'', ex_hdr512 @ ex_frame1 @ ex_frame2)] else NotExist),
      remove_err = (\<lambda>n. None)\<rparr>"

definition ex_newgen :: string where
  "ex_newgen = ''fedcba9876543210''"

text \<open>
  In the words of the spec: a live WAL whose first 32 bytes are a valid header (its
  magic selects a byte order and its checksum over the first 24 bytes verifies), and a
  generation name (16 hexadecimal characters).
\<close>

definition valid_wal_header :: "checksum \<Rightarrow> byte list \<Rightarrow> bool" where
  "valid_wal_header C wal =
     (32 \<le> length wal
      \<and> (case headerByteOrder (take 32 wal) of
            Ok bo \<Rightarrow> C bo 0 0 (take 24 wal)
                      = (BigEndian_Uint32 (drop 24 wal), BigEndian_Uint32 (drop 28 wal))
          | Err e \<Rightarrow> False
          | Panic m \<Rightarrow> False))"

definition generation_name :: "string \<Rightarrow> bool" where
  "generation_name g = (length g = GenerationNameLen \<and> list_all (\<lambda>c. c \<in> set hexDigits) g)"

section \<open>Properties\<close>

subsection \<open>64-bit arithmetic\<close>

lemma int64_id: "- (2 ^ 63) \<le> k \<Longrightarrow> k < 2 ^ 63 \<Longrightarrow> int64 k = k"
  unfolding int64_def by simp

lemma int64_wrap_hi: "2 ^ 63 \<le> k \<Longrightarrow> k < 2 ^ 64 \<Longrightarrow> int64 k = k - 2 ^ 64"
proof -
  assume a: "2 ^ 63 \<le> k" "k < 2 ^ 64"
  have "(k + 2 ^ 63) mod 2 ^ 64 = (k + 2 ^ 63 - 2 ^ 64) mod 2 ^ 64"
    by (metis diff_add_cancel mod_add_self2)
  also have "\<dots> = k + 2 ^ 63 - 2 ^ 64" using a by simp
  finally show ?thesis unfolding int64_def by simp
qed

lemma sdiv_nonneg: "0 \<le> a \<Longrightarrow> 0 < b \<Longrightarrow> (a::int) sdiv b = a div b"
  by (simp add: signed_divide_int_def sgn_if)

lemma sdiv_small: "0 \<le> a \<Longrightarrow> a < - b \<Longrightarrow> (a::int) sdiv b = 0"
  by (simp add: signed_divide_int_def sgn_if)

subsection \<open>Frame alignment\<close>

text \<open>When the frame size \<open>p + 24\<close> fits in 64 bits nothing wraps.\<close>

lemma frameAlign_no_overflow:
  assumes s: "32 \<le> s" "s < 2 ^ 63" and p: "0 \<le> p" "p + 24 < 2 ^ 63"
  shows "frameAlign s p = Some (32 + ((s - 32) div (p + 24)) * (p + 24))"
proof -
  let ?F = "p + 24"
  let ?N = "(s - 32) div ?F"
  have F: "int64 (WALFrameHeaderSize + int64 p) = ?F"
    using p by (simp add: int64_id WALFrameHeaderSize_def)
  have S: "int64 (s - WALHeaderSize) = s - 32"
    using s by (simp add: int64_id WALHeaderSize_def)
  have N0: "0 \<le> ?N" using s p by (simp add: pos_imp_zdiv_nonneg_iff)
  have NF: "?N * ?F \<le> s - 32"
  proof -
    have "0 \<le> (s - 32) mod ?F" using p by simp
    moreover have "?N * ?F + (s - 32) mod ?F = s - 32" by (rule div_mult_mod_eq)
    ultimately show ?thesis by linarith
  qed
  have NFnn: "0 \<le> ?N * ?F" using N0 p by simp
  have "?N * 1 \<le> ?N * ?F" using N0 p by (intro mult_left_mono) auto
  then have Nle: "?N \<le> s - 32" using NF by simp
  have N: "int64 ((s - 32) sdiv ?F) = ?N"
    using s p N0 Nle by (simp add: sdiv_nonneg int64_id)
  have M: "int64 (?N * ?F) = ?N * ?F"
    using NF NFnn s by (intro int64_id) auto
  have R: "int64 (?N * ?F + WALHeaderSize) = ?N * ?F + 32"
    using NF NFnn s by (simp add: WALHeaderSize_def int64_id)
  show ?thesis
    using s p unfolding frameAlign_def Let_def F S N M R
    by (simp add: WALHeaderSize_def)
qed

text \<open>
  When \<open>24 + pageSize\<close> wraps to a negative frame size, the truncating division gives
  zero frames, which is also what the unbounded formula gives.
\<close>

lemma frameAlign_overflow:
  assumes s: "32 \<le> s" "s < 2 ^ 63" and p: "p < 2 ^ 63" "2 ^ 63 \<le> p + 24"
  shows "frameAlign s p = Some 32"
proof -
  have p0: "0 \<le> p" using p by simp
  have F: "int64 (WALFrameHeaderSize + int64 p) = p + 24 - 2 ^ 64"
    using p p0 by (simp add: int64_id int64_wrap_hi WALFrameHeaderSize_def)
  have S: "int64 (s - WALHeaderSize) = s - 32"
    using s by (simp add: int64_id WALHeaderSize_def)
  have N: "(s - 32) sdiv (p + 24 - 2 ^ 64) = 0"
    using s p by (intro sdiv_small) auto
  have Z: "int64 0 = 0" by (simp add: int64_id)
  have R: "int64 WALHeaderSize = 32" by (simp add: int64_id WALHeaderSize_def)
  have nz: "p + 24 - 2 ^ 64 \<noteq> 0" using p by simp
  show ?thesis
    using s p0 nz unfolding frameAlign_def Let_def F S N
    by (simp add: Z R) (simp add: WALHeaderSize_def)
qed

lemma frameAlign_eq:
  assumes "0 \<le> s" "s < 2 ^ 63" "0 \<le> p" "p < 2 ^ 63"
  shows "frameAlign s p =
    Some (if s < 32 then 0 else 32 + ((s - 32) div (p + 24)) * (p + 24))"
proof (cases "s < 32")
  case True
  then show ?thesis using assms by (simp add: frameAlign_def WALHeaderSize_def)
next
  case False
  show ?thesis
  proof (cases "p + 24 < 2 ^ 63")
    case True
    then show ?thesis using False assms frameAlign_no_overflow [of s p] by simp
  next
    case hi: False
    have "s - 32 < p + 24" using hi assms by simp
    then have "(s - 32) div (p + 24) = 0" using False by simp
    then show ?thesis using False assms hi frameAlign_overflow [of s p] by simp
  qed
qed

lemma aligned_le:
  assumes "32 \<le> (s::int)" "0 \<le> p"
  shows "32 + ((s - 32) div (p + 24)) * (p + 24) \<le> s"
proof -
  have "0 \<le> (s - 32) mod (p + 24)" using assms by simp
  moreover have "(s - 32) div (p + 24) * (p + 24) + (s - 32) mod (p + 24) = s - 32"
    by (rule div_mult_mod_eq)
  ultimately show ?thesis by linarith
qed

lemma aligned_fix:
  assumes "0 \<le> (p::int)"
  shows "(32 + n * (p + 24) - 32) div (p + 24) = n"
  using assms by simp

text \<open>
  C7: for every file size \<open>s \<ge> 0\<close> and page size \<open>p \<ge> 0\<close> (both 64-bit values),
  \<open>frameAlign s p\<close> returns (it does not panic) \<open>0\<close> when \<open>s < 32\<close> and
  \<open>32 + \<lfloor>(s - 32) / (p + 24)\<rfloor> * (p + 24)\<close> otherwise, also where \<open>24 + p\<close> wraps
  around in 64 bits.
\<close>

theorem frameAlign_spec:
  assumes "0 \<le> s" "s < 2 ^ 63" "0 \<le> p" "p < 2 ^ 63"
  shows "frameAlign s p =
    Some (if s < 32 then 0 else 32 + ((s - 32) div (p + 24)) * (p + 24))"
  using assms by (rule frameAlign_eq)

theorem frameAlign_spec_witness:
  "frameAlign 4153 4096 = Some 4152 \<and> frameAlign 31 4096 = Some 0
   \<and> frameAlign 40 (2 ^ 63 - 1) = Some 32"
  using frameAlign_spec [of 4153 4096] frameAlign_spec [of 31 4096]
    frameAlign_spec [of 40 "2 ^ 63 - 1"]
  by simp

text \<open>
  C8: frame alignment is idempotent: for every file size \<open>s \<ge> 0\<close> and page size
  \<open>p \<ge> 0\<close>, aligning the aligned size returns the aligned size again.
\<close>

theorem frameAlign_idempotent:
  assumes "0 \<le> s" "s < 2 ^ 63" "0 \<le> p" "p < 2 ^ 63"
  shows "\<exists>a. frameAlign s p = Some a \<and> frameAlign a p = Some a"
proof (cases "s < 32")
  case True
  then have "frameAlign s p = Some 0" using assms by (simp add: frameAlign_eq)
  moreover have "frameAlign 0 p = Some 0" using assms by (simp add: frameAlign_eq)
  ultimately show ?thesis by simp
next
  case False
  let ?a = "32 + ((s - 32) div (p + 24)) * (p + 24)"
  have le: "?a \<le> s" using False assms by (intro aligned_le) auto
  have "0 \<le> (s - 32) div (p + 24)" using False assms by (simp add: pos_imp_zdiv_nonneg_iff)
  then have ge: "32 \<le> ?a" using assms by simp
  have 1: "frameAlign s p = Some ?a" using False assms by (simp add: frameAlign_eq)
  have "frameAlign ?a p = Some (32 + ((?a - 32) div (p + 24)) * (p + 24))"
    using ge le assms by (simp add: frameAlign_eq)
  also have "(?a - 32) div (p + 24) = (s - 32) div (p + 24)"
    using assms by simp
  finally show ?thesis using 1 by simp
qed

theorem frameAlign_idempotent_witness:
  "\<exists>a. frameAlign 5000 4096 = Some a \<and> frameAlign a 4096 = Some a"
  using frameAlign_idempotent [of 5000 4096] by simp

subsection \<open>Restore options\<close>

text \<open>
  C9: \<open>RestoreReplica\<close> validates its options first. With an empty output path, or a
  specific index (not the \<open>MaxInt64\<close> sentinel of \<open>NewRestoreOptions\<close>) and an empty
  generation, or a specific index and a non-zero timestamp, it returns one of its three
  validation errors and the world is unchanged, whatever the rest of the function
  would have done.
\<close>

theorem RestoreReplica_validates:
  assumes "OutputPath opt = []
     \<or> (RestoreOptions.Index opt \<noteq> MaxInt64 \<and> RestoreOptions.Generation opt = [])
     \<or> (RestoreOptions.Index opt \<noteq> MaxInt64 \<and> \<not> IsZero (Timestamp opt))"
  shows "\<exists>msg. RestoreReplica restore opt w = (Some (Errorf msg), w)
     \<and> (msg = ''output path required''
        \<or> msg = ''must specify generation when restoring to index''
        \<or> msg = ''cannot specify index & timestamp to restore'')"
  using assms by (auto simp: RestoreReplica_def)

theorem RestoreReplica_validates_witness:
  "RestoreOptions.Index NewRestoreOptions = MaxInt64
   \<and> (\<exists>msg. RestoreReplica (\<lambda>opt w. (None, Suc w))
         (NewRestoreOptions\<lparr>OutputPath := ''out.db'', RestoreOptions.Index := 3\<rparr>) (0::nat)
       = (Some (Errorf msg), 0))"
  using RestoreReplica_validates
    [of "NewRestoreOptions\<lparr>OutputPath := ''out.db'', RestoreOptions.Index := 3\<rparr>"
        "\<lambda>opt w. (None, Suc w)" "0::nat"]
  by (auto simp: NewRestoreOptions_def MaxInt64_def)

subsection \<open>Checkpoint policy\<close>

lemma mult_le_iff_le_div:
  assumes "0 < (d::int)"
  shows "n * d \<le> a \<longleftrightarrow> n \<le> a div d"
proof
  assume "n * d \<le> a"
  then have "(n * d) div d \<le> a div d" using assms by (intro zdiv_mono1) auto
  then show "n \<le> a div d" using assms by simp
next
  assume "n \<le> a div d"
  then have "n * d \<le> (a div d) * d" using assms by (intro mult_right_mono) auto
  moreover have "0 \<le> a mod d" using assms by simp
  moreover have "a div d * d + a mod d = a" by (rule div_mult_mod_eq)
  ultimately show "n * d \<le> a" by linarith
qed

text \<open>Reaching the size of \<open>n\<close> pages is having at least \<open>n\<close> pages.\<close>

lemma calcWALSize_le_iff:
  assumes "0 \<le> p"
  shows "calcWALSize p n \<le> s \<longleftrightarrow> n \<le> wal_pages s p"
proof -
  have F: "0 < p + 24" using assms by simp
  have "calcWALSize p n \<le> s \<longleftrightarrow> n * (p + 24) \<le> s - 32"
    by (simp add: calcWALSize_def WALHeaderSize_def WALFrameHeaderSize_def algebra_simps)
  also have "\<dots> \<longleftrightarrow> n \<le> (s - 32) div (p + 24)"
    using F by (rule mult_le_iff_le_div)
  finally show ?thesis by (simp add: wal_pages_def)
qed

text \<open>Exceeding the size of one page is, for a frame-aligned size, having two.\<close>

lemma calcWALSize_one_less_iff:
  assumes "0 \<le> p" "(s - 32) mod (p + 24) = 0"
  shows "calcWALSize p 1 < s \<longleftrightarrow> 2 \<le> wal_pages s p"
proof -
  have F: "0 < p + 24" using assms by simp
  have eq: "s - 32 = wal_pages s p * (p + 24)"
    using assms(2) div_mult_mod_eq [of "s - 32" "p + 24"] by (simp add: wal_pages_def)
  have "calcWALSize p 1 < s \<longleftrightarrow> 1 * (p + 24) < s - 32"
    by (simp add: calcWALSize_def WALHeaderSize_def WALFrameHeaderSize_def algebra_simps)
  also have "\<dots> \<longleftrightarrow> 1 * (p + 24) < wal_pages s p * (p + 24)"
    using eq by simp
  also have "\<dots> \<longleftrightarrow> 1 < wal_pages s p"
    using F by (simp only: mult_less_cancel_right_pos)
  finally show ?thesis by auto
qed

text \<open>
  C1 as stated fails: with one page in the WAL (4152 bytes at a page size of 4096), the
  default thresholds, an interval of 60 s and a database file modified 120 s ago, the
  third rule of the claim asks for a passive checkpoint and \<open>Sync\<close> issues none.
\<close>

theorem Sync_checkpoint_one_page_counterexample:
  "wal_pages 4152 4096 \<ge> 1
   \<and> Since 1120000000000 1000000000000 > 60000000000
   \<and> wal_pages 4152 4096 < 1000
   \<and> Sync_checkpoint
        \<lparr>pageSize = 4096, MinCheckpointPageN = 1000, MaxCheckpointPageN = 10000,
         CheckpointInterval = 60000000000, Replicas = []\<rparr>
        1120000000000
        \<lparr>generation = ''0123456789abcdef'', dbModTime = 1000000000000, walSize = 4152,
         walModTime = 1000000000000, shadowWALPath = (''0123456789abcdef'', ''00000000.wal''),
         shadowWALSize = 4152, restart = False, reason = []\<rparr>
        4152
      = (False, CheckpointModePassive)"
  by (simp add: Sync_checkpoint_def calcWALSize_def wal_pages_def Since_def IsZero_def
      WALHeaderSize_def WALFrameHeaderSize_def)

text \<open>
  C1 as amended: for the frame-aligned size \<open>s\<close> that the copy returned, \<open>Sync\<close> issues
  a restart checkpoint if \<open>MaxCheckpointPageN > 0\<close> and \<open>wal_pages s \<ge> MaxCheckpointPageN\<close>;
  otherwise a passive one if \<open>wal_pages s \<ge> MinCheckpointPageN\<close>; otherwise a passive one
  if \<open>CheckpointInterval > 0\<close>, the modification time that \<open>verify\<close> recorded for the
  database file is set, the time since then exceeds the interval and the WAL holds more
  than one page (\<open>wal_pages s \<ge> 2\<close>); otherwise none.
\<close>

theorem Sync_checkpoint_policy:
  assumes "0 \<le> pageSize db" and "(s - 32) mod (pageSize db + 24) = 0"
  shows "Sync_checkpoint db now info s =
    (if MaxCheckpointPageN db > 0 \<and> wal_pages s (pageSize db) \<ge> MaxCheckpointPageN db
       then (True, CheckpointModeRestart)
     else if wal_pages s (pageSize db) \<ge> MinCheckpointPageN db
       then (True, CheckpointModePassive)
     else if CheckpointInterval db > 0 \<and> \<not> IsZero (dbModTime info)
          \<and> Since now (dbModTime info) > CheckpointInterval db
          \<and> wal_pages s (pageSize db) \<ge> 2
       then (True, CheckpointModePassive)
     else (False, CheckpointModePassive))"
  unfolding Sync_checkpoint_def
  using calcWALSize_le_iff [OF assms(1)] calcWALSize_one_less_iff [OF assms]
  by simp

theorem Sync_checkpoint_policy_witness:
  "(8272 - 32) mod (4096 + 24) = (0::int)
   \<and> Sync_checkpoint
        \<lparr>pageSize = 4096, MinCheckpointPageN = 1000, MaxCheckpointPageN = 10000,
         CheckpointInterval = 60000000000, Replicas = []\<rparr>
        1120000000000
        \<lparr>generation = ''0123456789abcdef'', dbModTime = 1000000000000, walSize = 8272,
         walModTime = 1000000000000, shadowWALPath = (''0123456789abcdef'', ''00000000.wal''),
         shadowWALSize = 4152, restart = False, reason = []\<rparr>
        8272
      = (True, CheckpointModePassive)"
  using Sync_checkpoint_policy
    [of "\<lparr>pageSize = 4096, MinCheckpointPageN = 1000, MaxCheckpointPageN = 10000,
         CheckpointInterval = 60000000000, Replicas = []\<rparr>"
        8272 1120000000000
        "\<lparr>generation = ''0123456789abcdef'', dbModTime = 1000000000000, walSize = 8272,
         walModTime = 1000000000000, shadowWALPath = (''0123456789abcdef'', ''00000000.wal''),
         shadowWALSize = 4152, restart = False, reason = []\<rparr>"]
  by (simp add: wal_pages_def Since_def IsZero_def)

subsection \<open>Pruning\<close>

lemma CurrentGeneration_no_panic: "CurrentGeneration fs \<noteq> Panic m"
  by (simp add: CurrentGeneration_def Let_def split: io.splits)

lemma cleanWAL_min_step:
  "cleanWAL_min gen (r # rs) mn =
     cleanWAL_min gen rs
       (if mn = - 1 \<or> replicated_index gen r < mn then replicated_index gen r else mn)"
  by (simp add: replicated_index_def Let_def Pos0_def)

lemma cleanWAL_min_acc:
  assumes "0 \<le> acc" "\<forall>r\<in>set rs. 0 \<le> replicated_index gen r"
  shows "cleanWAL_min gen rs acc = Min (insert acc (replicated_index gen ` set rs))"
  using assms
proof (induction rs arbitrary: acc)
  case Nil
  then show ?case by simp
next
  case (Cons r rs)
  let ?i = "replicated_index gen r"
  have i0: "0 \<le> ?i" using Cons.prems by simp
  have acc1: "acc \<noteq> - 1" using Cons.prems by auto
  have "cleanWAL_min gen (r # rs) acc = cleanWAL_min gen rs (min ?i acc)"
    unfolding cleanWAL_min_step using acc1 by (simp add: min_def)
  also have "\<dots> = Min (insert (min ?i acc) (replicated_index gen ` set rs))"
    using Cons.prems i0 by (intro Cons.IH) auto
  also have "\<dots> = Min (insert acc (replicated_index gen ` set (r # rs)))"
    by (cases "set rs = {}") (simp_all add: min.commute min.left_commute min.assoc)
  finally show ?case .
qed

lemma cleanWAL_min_eq:
  assumes "rs \<noteq> []" "\<forall>r\<in>set rs. 0 \<le> replicated_index gen r"
  shows "cleanWAL_min gen rs (- 1) = min_replicated_index gen rs"
proof (cases rs)
  case Nil
  then show ?thesis using assms by simp
next
  case (Cons r rs')
  have "cleanWAL_min gen (r # rs') (- 1) = cleanWAL_min gen rs' (replicated_index gen r)"
    unfolding cleanWAL_min_step by simp
  also have "\<dots> = Min (insert (replicated_index gen r) (replicated_index gen ` set rs'))"
    using assms Cons by (intro cleanWAL_min_acc) auto
  finally show ?thesis using Cons by (simp add: min_replicated_index_def)
qed


lemma RemoveAll_generation_fields [simp]:
  "remove_err (RemoveAll_generation n fs) = remove_err fs"
  "generation_file (RemoveAll_generation n fs) = generation_file fs"
  "wal_dirs (RemoveAll_generation n fs) = (wal_dirs fs)(n := NotExist)"
  "generations fs = Has ns \<Longrightarrow>
     generations (RemoveAll_generation n fs) = Has (filter (\<lambda>m. m \<noteq> n) ns)"
  by (simp_all add: RemoveAll_generation_def)

lemma cleanGenerations_loop_ok:
  assumes "\<forall>n\<in>set fis. remove_err fs n = None" "generations fs = Has ns"
  shows "fst (cleanGenerations_loop gen fis fs) = Ok ()
    \<and> generations (snd (cleanGenerations_loop gen fis fs))
        = Has (filter (\<lambda>m. m = gen \<or> m \<notin> set fis) ns)
    \<and> wal_dirs (snd (cleanGenerations_loop gen fis fs))
        = (\<lambda>g. if g \<in> set fis \<and> g \<noteq> gen then NotExist else wal_dirs fs g)"
  using assms
proof (induction fis arbitrary: fs ns)
  case Nil
  then show ?case by simp
next
  case (Cons fi fis)
  show ?case
  proof (cases "fi = gen")
    case True
    have "\<forall>n\<in>set fis. remove_err fs n = None" using Cons.prems by simp
    from Cons.IH [OF this Cons.prems(2)] True show ?thesis
      by (auto intro!: filter_cong)
  next
    case False
    let ?fs = "RemoveAll_generation fi fs"
    have rm: "remove_err fs fi = None" using Cons.prems by simp
    have 1: "\<forall>n\<in>set fis. remove_err ?fs n = None" using Cons.prems by simp
    have 2: "generations ?fs = Has (filter (\<lambda>m. m \<noteq> fi) ns)"
      using Cons.prems by simp
    from Cons.IH [OF 1 2] False rm show ?thesis
      by (auto intro!: filter_cong)
  qed
qed

lemma Remove_shadow_fields [simp]:
  "remove_err (Remove_shadow gen n fs) = remove_err fs"
  "wal_dirs fs gen = Has es \<Longrightarrow>
     wal_dirs (Remove_shadow gen n fs) = (wal_dirs fs)(gen := Has (filter (\<lambda>fi. fst fi \<noteq> n) es))"
  by (simp_all add: Remove_shadow_def)

lemma cleanWAL_loop_ok:
  assumes "\<forall>fi\<in>set fis. remove_err fs (fst fi) = None" "wal_dirs fs gen = Has es"
  shows "fst (cleanWAL_loop gen mn fis fs) = Ok ()
    \<and> wal_dirs (snd (cleanWAL_loop gen mn fis fs))
        = (wal_dirs fs)(gen := Has (filter (\<lambda>e. \<not> (fst e \<in> fst ` set fis \<and> prunable mn (fst e))) es))"
  using assms
proof (induction fis arbitrary: fs es)
  case Nil
  then show ?case by auto
next
  case (Cons fi fis)
  show ?case
  proof (cases "prunable mn (fst fi)")
    case False
    have 1: "\<forall>fi\<in>set fis. remove_err fs (fst fi) = None" using Cons.prems by simp
    have step: "cleanWAL_loop gen mn (fi # fis) fs = cleanWAL_loop gen mn fis fs"
      using False by (simp add: prunable_def split: option.splits)
    have "filter (\<lambda>e. \<not> (fst e \<in> fst ` set (fi # fis) \<and> prunable mn (fst e))) es
        = filter (\<lambda>e. \<not> (fst e \<in> fst ` set fis \<and> prunable mn (fst e))) es"
      using False by (intro filter_cong) auto
    then show ?thesis using Cons.IH [OF 1 Cons.prems(2)] step by simp
  next
    case True
    let ?fs = "Remove_shadow gen (fst fi) fs"
    have rm: "remove_err fs (fst fi) = None" using Cons.prems by simp
    have 1: "\<forall>fi\<in>set fis. remove_err ?fs (fst fi) = None" using Cons.prems by simp
    have 2: "wal_dirs ?fs gen = Has (filter (\<lambda>e. fst e \<noteq> fst fi) es)"
      using Cons.prems by simp
    have step: "cleanWAL_loop gen mn (fi # fis) fs = cleanWAL_loop gen mn fis ?fs"
      using True rm by (simp add: prunable_def split: option.splits)
    have "filter (\<lambda>e. \<not> (fst e \<in> fst ` set fis \<and> prunable mn (fst e)))
            (filter (\<lambda>e. fst e \<noteq> fst fi) es)
        = filter (\<lambda>e. \<not> (fst e \<in> fst ` set (fi # fis) \<and> prunable mn (fst e))) es"
      unfolding filter_filter using True by (intro filter_cong) auto
    then show ?thesis using Cons.IH [OF 1 2] step Cons.prems(2) by (simp add: fun_eq_iff)
  qed
qed


lemma ex_fs_generation: "CurrentGeneration ex_fs = Ok ex_gen"
  by (simp add: CurrentGeneration_def ex_fs_def ex_gen_def TrimSpace_def isSpace_def
      GenerationNameLen_def)

lemma ex_min: "min_replicated_index ex_gen (Replicas ex_db) = 3"
  by (simp add: min_replicated_index_def replicated_index_def ex_db_def)

lemma ex_prunable:
  "prunable 2 ''00000000.wal''" "prunable 2 ''00000001.wal''"
  "\<not> prunable 2 ''00000002.wal''" "\<not> prunable 2 ''00000003.wal''"
  by (simp_all add: prunable_def ParseWALPath_def WALExt_def hexValue_def hexDigits_def upto.simps)

text \<open>
  C4: when the generation pointer is readable and no removal fails,
  \<open>cleanGenerations\<close> leaves of the generation directories exactly the current one,
  and \<open>cleanWAL\<close> leaves of the current generation's segment files exactly those whose
  index is not below \<open>m - 1\<close>, where \<open>m\<close> is the minimum over the replicas of the
  index of \<open>LastPos\<close> (0 for another generation); with \<open>m \<le> 0\<close> no file is deleted.
\<close>

theorem clean_prunes:
  assumes cur: "CurrentGeneration fs = Ok gen"
    and rm: "\<forall>n. remove_err fs n = None"
    and gs: "generations fs = Has gs"
    and reps: "Replicas db \<noteq> []" "\<forall>r\<in>set (Replicas db). 0 \<le> Pos.Index (LastPos r)"
    and dir: "gen \<noteq> []" "wal_dirs fs gen = Has fis"
  shows "fst (cleanGenerations fs) = Ok ()
    \<and> generations (snd (cleanGenerations fs)) = Has (filter (\<lambda>g. g = gen) gs)
    \<and> fst (cleanWAL db fs) = Ok ()
    \<and> wal_dirs (snd (cleanWAL db fs)) gen =
        Has (if min_replicated_index gen (Replicas db) \<le> 0 then fis
             else filter (\<lambda>fi. \<not> prunable (min_replicated_index gen (Replicas db) - 1) (fst fi)) fis)"
proof -
  let ?m = "min_replicated_index gen (Replicas db)"
  have "\<forall>n\<in>set gs. remove_err fs n = None" using rm by simp
  from cleanGenerations_loop_ok [OF this gs, of gen]
  have G: "fst (cleanGenerations fs) = Ok ()
    \<and> generations (snd (cleanGenerations fs)) = Has (filter (\<lambda>g. g = gen) gs)"
    using cur gs by (auto simp: cleanGenerations_def intro!: filter_cong)
  have "\<forall>r\<in>set (Replicas db). 0 \<le> replicated_index gen r"
    using reps(2) by (simp add: replicated_index_def)
  then have m: "cleanWAL_min gen (Replicas db) (- 1) = ?m"
    using reps(1) by (intro cleanWAL_min_eq)
  have W: "fst (cleanWAL db fs) = Ok ()
    \<and> wal_dirs (snd (cleanWAL db fs)) gen =
        Has (if ?m \<le> 0 then fis else filter (\<lambda>fi. \<not> prunable (?m - 1) (fst fi)) fis)"
  proof (cases "?m \<le> 0")
    case True
    then show ?thesis using cur m dir by (simp add: cleanWAL_def)
  next
    case False
    have "\<forall>fi\<in>set fis. remove_err fs (fst fi) = None" using rm by simp
    from cleanWAL_loop_ok [OF this dir(2), of "?m - 1"]
    have "fst (cleanWAL_loop gen (?m - 1) fis fs) = Ok ()
      \<and> wal_dirs (snd (cleanWAL_loop gen (?m - 1) fis fs)) gen
         = Has (filter (\<lambda>fi. \<not> prunable (?m - 1) (fst fi)) fis)"
      by (auto intro!: filter_cong)
    then show ?thesis using False cur m dir by (simp add: cleanWAL_def)
  qed
  from G W show ?thesis by simp
qed

theorem clean_prunes_witness:
  "generations (snd (cleanGenerations ex_fs)) = Has [ex_gen]
   \<and> wal_dirs (snd (cleanWAL ex_db ex_fs)) ex_gen
       = Has [(''00000002.wal'', []), (''00000003.wal'', [])]"
proof -
  have 1: "\<forall>n. remove_err ex_fs n = None" by (simp add: ex_fs_def)
  have 2: "generations ex_fs = Has [ex_gen, ''aaaaaaaaaaaaaaaa'']" by (simp add: ex_fs_def)
  have 3: "Replicas ex_db \<noteq> []" by (simp add: ex_db_def)
  have 4: "\<forall>r\<in>set (Replicas ex_db). 0 \<le> Pos.Index (LastPos r)" by (simp add: ex_db_def)
  have 5: "ex_gen \<noteq> []" by (simp add: ex_gen_def)
  have 6: "wal_dirs ex_fs ex_gen = Has [(''00000000.wal'', []), (''00000001.wal'', []),
                   (''00000002.wal'', []), (''00000003.wal'', [])]" by (simp add: ex_fs_def)
  from clean_prunes [OF ex_fs_generation 1 2 3 4 5 6] show ?thesis
    by (simp add: ex_min ex_prunable) (simp add: ex_gen_def)
qed

text \<open>
  C10: with an empty list of replicas the minimum stays at its initial \<open>-1\<close>, so
  \<open>cleanWAL\<close> returns at \<open>min \<le> 0\<close>: it succeeds and the file system, with the
  shadow WAL directory, is unchanged.
\<close>

theorem cleanWAL_no_replicas:
  assumes "Replicas db = []" and "CurrentGeneration fs = Ok gen"
  shows "cleanWAL_min gen (Replicas db) (- 1) = - 1 \<and> cleanWAL db fs = (Ok (), fs)"
  using assms by (simp add: cleanWAL_def)

theorem cleanWAL_no_replicas_witness:
  "cleanWAL (ex_db\<lparr>Replicas := []\<rparr>) ex_fs = (Ok (), ex_fs)"
  using cleanWAL_no_replicas [of "ex_db\<lparr>Replicas := []\<rparr>" ex_fs ex_gen] ex_fs_generation
  by simp

subsection \<open>The shadow WAL reader\<close>

text \<open>
  C6, first part, fails on the code: where the segment of \<open>pos\<close> exists and the offset
  of \<open>pos\<close> exceeds its frame-aligned size, \<open>shadowWALReader\<close> builds the error
  \<^verbatim>\<open>wal reader offset too high\<close>, but its deferred function then calls \<^verbatim>\<open>Close\<close> on
  the nil reader, so the call panics and no error reaches the caller.
\<close>

theorem ShadowWALReader_offset_too_high_panics:
  assumes "ShadowWALPath (Pos.Generation pos) (Pos.Index pos) = Ok path"
    and "shadow_file fs path = Has b"
    and "frameAlign (int (length b)) (pageSize db) = Some fileSize"
    and "Offset pos > fileSize"
  shows "DB_ShadowWALReader db fs pos = Panic ''invalid memory address or nil pointer dereference''"
  using assms
  by (simp add: DB_ShadowWALReader_def shadowWALReader_def shadowWALReader_deferred_def)

lemma ex_fs_hdr_segment0:
  "shadow_file ex_fs_hdr (ex_gen, ''00000000.wal'') = Has ex_hdr"
  "shadow_file ex_fs_hdr (ex_gen, ''00000001.wal'') = NotExist"
  by (simp_all add: shadow_file_def ex_fs_hdr_def)

lemma FormatWALPath_0_1:
  "FormatWALPath 0 = ''00000000.wal''" "FormatWALPath 1 = ''00000001.wal''"
  by (simp_all add: FormatWALPath_def hexDigits_def WALExt_def eval_nat_numeral)

lemma ex_path0: "ShadowWALPath ex_gen 0 = Ok (ex_gen, ''00000000.wal'')"
  by (simp add: ShadowWALPath_def FormatWALPath_0_1) (simp add: ex_gen_def)

lemma ex_path1: "ShadowWALPath ex_gen 1 = Ok (ex_gen, ''00000001.wal'')"
  by (simp add: ShadowWALPath_def FormatWALPath_0_1) (simp add: ex_gen_def)

lemma ex_hdr_aligned: "frameAlign (int (length ex_hdr)) 4096 = Some 32"
  using frameAlign_eq [of 32 4096] by (simp add: ex_hdr_def)

theorem ShadowWALReader_offset_too_high_panics_witness:
  "DB_ShadowWALReader ex_db ex_fs_hdr \<lparr>Generation = ex_gen, Index = 0, Offset = 4152\<rparr>
     = Panic ''invalid memory address or nil pointer dereference''"
proof -
  have "frameAlign (int (length ex_hdr)) (pageSize ex_db) = Some 32"
    using ex_hdr_aligned by (simp add: ex_db_def)
  from ShadowWALReader_offset_too_high_panics
    [of "\<lparr>Generation = ex_gen, Index = 0, Offset = 4152\<rparr>" "(ex_gen, ''00000000.wal'')"
        ex_fs_hdr ex_hdr ex_db 32, OF _ ex_fs_hdr_segment0(1) this]
  show ?thesis using ex_path0 by simp
qed

text \<open>
  The second part of C6 holds: a reader with no remaining bytes gives way to the next
  segment at offset 0, and end-of-stream is returned when that segment does not exist.
\<close>

lemma ShadowWALReader_next_segment:
  assumes "shadowWALReader db fs pos = Ok r" and "N r = 0"
  shows "DB_ShadowWALReader db fs pos =
    (case shadowWALReader db fs (pos\<lparr>Pos.Index := Pos.Index pos + 1, Offset := 0\<rparr>) of
       Err e \<Rightarrow> if IsNotExist e then Err EOF else Err e
     | x \<Rightarrow> x)"
  using assms by (simp add: DB_ShadowWALReader_def)

lemma ShadowWALReader_next_missing:
  assumes "shadowWALReader db fs pos = Ok r" and "N r = 0"
    and "ShadowWALPath (Pos.Generation pos) (Pos.Index pos + 1) = Ok path"
    and "shadow_file fs path = NotExist"
  shows "DB_ShadowWALReader db fs pos = Err EOF"
  using assms
  by (simp add: DB_ShadowWALReader_def shadowWALReader_def IsNotExist_def)

lemma ShadowWALReader_next_missing_example:
  "DB_ShadowWALReader ex_db ex_fs_hdr \<lparr>Generation = ex_gen, Index = 0, Offset = 32\<rparr> = Err EOF"
proof -
  have a: "frameAlign (int (length ex_hdr)) (pageSize ex_db) = Some 32"
    using ex_hdr_aligned by (simp add: ex_db_def)
  have r: "shadowWALReader ex_db ex_fs_hdr \<lparr>Generation = ex_gen, Index = 0, Offset = 32\<rparr>
     = Ok \<lparr>rd_f = (ex_gen, ''00000000.wal''), rd_n = 0,
           rd_pos = \<lparr>Generation = ex_gen, Index = 0, Offset = 32\<rparr>\<rparr>"
    using ex_path0 ex_fs_hdr_segment0(1) a by (simp add: shadowWALReader_def)
  show ?thesis
    by (rule ShadowWALReader_next_missing [OF r _ _ ex_fs_hdr_segment0(2)])
       (simp_all add: N_def ex_path1)
qed

subsection \<open>Frame copy\<close>

lemma copyToShadowWAL_loop_unfold:
  "copyToShadowWAL_loop C bo hsalt0 hsalt1 p r chk tmpSz l =
     (if frame_accepted C bo hsalt0 hsalt1 p r chk
      then copyToShadowWAL_loop C bo hsalt0 hsalt1 p (drop (p + 24) r) (frame_chk C bo p r chk)
             (tmpSz + int (p + 24))
             (if frame_commit p r then tmpSz + int (p + 24) else l)
      else l)"
  apply (subst copyToShadowWAL_loop.simps)
  apply (simp only: frame_accepted_def frame_chk_def frame_commit_def Let_def)
  apply (simp add: min_def)
  done

lemma chk_after_shift:
  "chk_after C bo p r chk (Suc i)
     = chk_after C bo p (drop (p + 24) r) (frame_chk C bo p r chk) i"
proof (induction i)
  case 0
  show ?case by simp
next
  case (Suc i)
  have "drop (Suc i * (p + 24)) r = drop (i * (p + 24)) (drop (p + 24) r)"
    by (simp add: add.commute)
  then show ?case using Suc by (simp del: mult_Suc)
qed

lemma scanned_iff:
  "scanned C bo hsalt0 hsalt1 p r chk k \<longleftrightarrow>
     (\<forall>i<k. frame_accepted C bo hsalt0 hsalt1 p (drop (i * (p + 24)) r)
                  (chk_after C bo p r chk i))"
  by (auto simp: scanned_def list_all_iff)

lemma scanned_0 [simp]: "scanned C bo hsalt0 hsalt1 p r chk 0"
  by (simp add: scanned_def)

lemma scanned_Suc_shift:
  "scanned C bo hsalt0 hsalt1 p r chk (Suc j) \<longleftrightarrow>
     frame_accepted C bo hsalt0 hsalt1 p r chk
     \<and> scanned C bo hsalt0 hsalt1 p (drop (p + 24) r) (frame_chk C bo p r chk) j"
proof -
  have "scanned C bo hsalt0 hsalt1 p r chk (Suc j) \<longleftrightarrow>
      (\<forall>i<Suc j. frame_accepted C bo hsalt0 hsalt1 p (drop (i * (p + 24)) r)
                    (chk_after C bo p r chk i))"
    by (rule scanned_iff)
  also have "\<dots> \<longleftrightarrow> frame_accepted C bo hsalt0 hsalt1 p r chk
      \<and> (\<forall>i<j. frame_accepted C bo hsalt0 hsalt1 p (drop (Suc i * (p + 24)) r)
                    (chk_after C bo p r chk (Suc i)))"
    by (subst All_less_Suc2) (simp del: mult_Suc chk_after.simps(2))
  also have "\<dots> \<longleftrightarrow> frame_accepted C bo hsalt0 hsalt1 p r chk
      \<and> (\<forall>i<j. frame_accepted C bo hsalt0 hsalt1 p (drop (i * (p + 24)) (drop (p + 24) r))
                    (chk_after C bo p (drop (p + 24) r) (frame_chk C bo p r chk) i))"
    by (simp add: chk_after_shift add.commute del: chk_after.simps(2))
  finally show ?thesis by (simp only: scanned_iff)
qed


lemma drop_frames_shift:
  "1 \<le> j \<Longrightarrow> drop ((j - 1) * F) (drop F r) = drop (j * F) r"
  by (cases j) (simp_all add: add.commute)

lemma last_commit_0_rejected:
  assumes "\<not> frame_accepted C bo hsalt0 hsalt1 p r chk"
  shows "last_commit C bo hsalt0 hsalt1 p r chk 0"
proof -
  have "\<not> scanned C bo hsalt0 hsalt1 p r chk j" if pos: "0 < j" for j
  proof -
    obtain j' where "j = Suc j'" using pos by (cases j) auto
    then show ?thesis using assms by (simp add: scanned_Suc_shift)
  qed
  then show ?thesis by (simp add: last_commit_def)
qed

lemma last_commit_Suc:
  assumes acc: "frame_accepted C bo hsalt0 hsalt1 p r chk"
    and lc: "last_commit C bo hsalt0 hsalt1 p (drop (p + 24) r) (frame_chk C bo p r chk) k"
    and k: "0 < k \<or> frame_commit p r"
  shows "last_commit C bo hsalt0 hsalt1 p r chk (Suc k)"
proof -
  let ?F = "p + 24"
  let ?r = "drop ?F r"
  let ?c = "frame_chk C bo p r chk"
  have sc: "scanned C bo hsalt0 hsalt1 p r chk (Suc k)"
    using acc lc by (simp add: scanned_Suc_shift last_commit_def)
  have cm: "frame_commit p (drop ((Suc k - 1) * ?F) r)"
  proof (cases "k = 0")
    case True
    then show ?thesis using k by simp
  next
    case False
    then have "frame_commit p (drop ((k - 1) * ?F) ?r)" using lc by (simp add: last_commit_def)
    moreover have "drop ((k - 1) * ?F) ?r = drop (k * ?F) r"
      using False by (intro drop_frames_shift) simp
    ultimately show ?thesis by simp
  qed
  have mx: "\<not> frame_commit p (drop ((j - 1) * ?F) r)"
    if j: "Suc k < j" "scanned C bo hsalt0 hsalt1 p r chk j" for j
  proof -
    obtain j' where j': "j = Suc j'" using j(1) by (cases j) auto
    have "k < j'" using j(1) j' by simp
    moreover have "scanned C bo hsalt0 hsalt1 p ?r ?c j'"
      using j(2) j' by (simp add: scanned_Suc_shift)
    ultimately have "\<not> frame_commit p (drop ((j' - 1) * ?F) ?r)"
      using lc by (simp add: last_commit_def)
    moreover have "drop ((j' - 1) * ?F) ?r = drop (j' * ?F) r"
      using \<open>k < j'\<close> by (intro drop_frames_shift) simp
    ultimately show ?thesis using j' by simp
  qed
  from sc cm mx show ?thesis unfolding last_commit_def by blast
qed

lemma last_commit_0_no_commit:
  assumes acc: "frame_accepted C bo hsalt0 hsalt1 p r chk"
    and lc: "last_commit C bo hsalt0 hsalt1 p (drop (p + 24) r) (frame_chk C bo p r chk) 0"
    and nc: "\<not> frame_commit p r"
  shows "last_commit C bo hsalt0 hsalt1 p r chk 0"
proof -
  let ?F = "p + 24"
  let ?r = "drop ?F r"
  let ?c = "frame_chk C bo p r chk"
  have mx: "\<not> frame_commit p (drop ((j - 1) * ?F) r)"
    if j: "0 < j" "scanned C bo hsalt0 hsalt1 p r chk j" for j
  proof -
    obtain j' where j': "j = Suc j'" using j(1) by (cases j) auto
    show ?thesis
    proof (cases "j' = 0")
      case True
      then show ?thesis using nc j' by simp
    next
      case False
      have "scanned C bo hsalt0 hsalt1 p ?r ?c j'"
        using j(2) j' by (simp add: scanned_Suc_shift)
      then have "\<not> frame_commit p (drop ((j' - 1) * ?F) ?r)"
        using lc False by (simp add: last_commit_def)
      moreover have "drop ((j' - 1) * ?F) ?r = drop (j' * ?F) r"
        using False by (intro drop_frames_shift) simp
      ultimately show ?thesis using j' by simp
    qed
  qed
  then show ?thesis by (simp add: last_commit_def)
qed

lemma copyToShadowWAL_loop_last_commit:
  "\<exists>k. last_commit C bo hsalt0 hsalt1 p r chk k \<and> k * (p + 24) \<le> length r
     \<and> copyToShadowWAL_loop C bo hsalt0 hsalt1 p r chk tmpSz l
         = (if k = 0 then l else tmpSz + int (k * (p + 24)))"
proof (induction "length r" arbitrary: r chk tmpSz l rule: less_induct)
  case less
  let ?F = "p + 24"
  show ?case
  proof (cases "frame_accepted C bo hsalt0 hsalt1 p r chk")
    case False
    have "copyToShadowWAL_loop C bo hsalt0 hsalt1 p r chk tmpSz l = l"
      using False by (subst copyToShadowWAL_loop_unfold) simp
    then show ?thesis using last_commit_0_rejected [OF False] by (intro exI [of _ 0]) simp
  next
    case True
    then have len: "?F \<le> length r" by (simp add: frame_accepted_def Let_def)
    let ?r = "drop ?F r"
    let ?c = "frame_chk C bo p r chk"
    let ?l = "if frame_commit p r then tmpSz + int ?F else l"
    let ?res = "copyToShadowWAL_loop C bo hsalt0 hsalt1 p ?r ?c (tmpSz + int ?F) ?l"
    have eq: "copyToShadowWAL_loop C bo hsalt0 hsalt1 p r chk tmpSz l = ?res"
      using True by (subst copyToShadowWAL_loop_unfold) simp
    have "length ?r < length r" using len by simp
    from less [OF this, of ?c "tmpSz + int ?F" ?l]
    obtain k where k: "last_commit C bo hsalt0 hsalt1 p ?r ?c k" "k * ?F \<le> length ?r"
        "?res = (if k = 0 then ?l else tmpSz + int ?F + int (k * ?F))"
      by blast
    show ?thesis
    proof (cases "0 < k \<or> frame_commit p r")
      case yes: True
      have 1: "last_commit C bo hsalt0 hsalt1 p r chk (Suc k)"
        using True k(1) yes by (rule last_commit_Suc)
      have 2: "Suc k * ?F \<le> length r" using k(2) len by simp
      have 3: "?res = tmpSz + int (Suc k * ?F)"
        using k(3) yes by (auto simp: algebra_simps)
      show ?thesis unfolding eq using 1 2 3 by (intro exI [of _ "Suc k"]) simp
    next
      case no: False
      then have k0: "k = 0" and nc: "\<not> frame_commit p r" by simp_all
      have 1: "last_commit C bo hsalt0 hsalt1 p r chk 0"
        using True k(1) nc unfolding k0 by (rule last_commit_0_no_commit)
      have 3: "?res = l" using k(3) k0 nc by simp
      show ?thesis unfolding eq using 1 3 by (intro exI [of _ 0]) simp
    qed
  qed
qed

lemma shadow_file_write [simp]:
  "shadow_file (write_shadow_file fs path b) path = Has b"
  by (simp add: shadow_file_def write_shadow_file_def update_conv')

lemma WriteAt_end [simp]: "WriteAt w (length w) b = w @ b"
  by (simp add: WriteAt_def)

lemma frameAlign_aligned:
  assumes "0 \<le> p" "p < 2 ^ 63" "int (length w) < 2 ^ 63"
    and "32 \<le> length w" "(length w - 32) mod (nat p + 24) = 0"
  shows "frameAlign (int (length w)) p = Some (int (length w))"
proof -
  have F: "int (nat p + 24) = p + 24" using assms(1) by simp
  have "int ((length w - 32) mod (nat p + 24)) = 0" using assms(5) by simp
  then have "(int (length w) - 32) mod (p + 24) = 0"
    using assms(4) F by (simp add: zmod_int of_nat_diff)
  then have "(int (length w) - 32) div (p + 24) * (p + 24) = int (length w) - 32"
    using div_mult_mod_eq [of "int (length w) - 32" "p + 24"] by simp
  then show ?thesis
    using assms by (simp add: frameAlign_eq)
qed

lemma frame_commit_take:
  "take (p + 24) x = take (p + 24) y \<Longrightarrow> frame_commit p x = frame_commit p y"
  by (simp add: frame_commit_def)

text \<open>Appending up to a commit frame keeps a segment commit-bounded.\<close>

lemma commit_bounded_append:
  assumes cb: "commit_bounded p w"
    and k: "k * (p + 24) \<le> length r'"
    and c: "k = 0 \<or> frame_commit p (drop ((k - 1) * (p + 24)) r')"
  shows "commit_bounded p (w @ take (k * (p + 24)) r')"
proof (cases "k = 0")
  case True
  then show ?thesis using cb by simp
next
  case False
  let ?F = "p + 24"
  let ?b = "take (k * ?F) r'"
  have lb: "length ?b = k * ?F" using k by simp
  have w32: "32 \<le> length w" and wm: "(length w - 32) mod ?F = 0"
    using cb by (simp_all add: commit_bounded_def)
  have kF: "(k - 1) * ?F + ?F = k * ?F" using False by (cases k) simp_all
  have 1: "32 \<le> length (w @ ?b)" using w32 by simp
  have "length (w @ ?b) - 32 = (length w - 32) + k * ?F" using w32 lb by simp
  moreover have "((length w - 32) + k * ?F) mod ?F = (length w - 32) mod ?F" by simp
  ultimately have 2: "(length (w @ ?b) - 32) mod ?F = 0" using wm by (simp only:)
  have "length (w @ ?b) - ?F = length w + (k - 1) * ?F" using lb kF by simp
  then have "drop (length (w @ ?b) - ?F) (w @ ?b) = drop ((k - 1) * ?F) ?b"
    by simp
  also have "\<dots> = take (k * ?F - (k - 1) * ?F) (drop ((k - 1) * ?F) r')"
    by (simp only: drop_take)
  also have "k * ?F - (k - 1) * ?F = ?F" using kF by linarith
  finally have "frame_commit p (drop (length (w @ ?b) - ?F) (w @ ?b))
      = frame_commit p (drop ((k - 1) * ?F) r')"
    by (intro frame_commit_take) simp
  then have 3: "frame_commit p (drop (length (w @ ?b) - ?F) (w @ ?b))"
    using c False by simp
  from 1 2 3 show ?thesis unfolding commit_bounded_def by blast
qed



lemma copyToShadowWAL_appends:
  assumes p: "0 \<le> pageSize db" "pageSize db < 2 ^ 63"
    and len: "int (length w) < 2 ^ 63"
    and r: "wal_file fs = Has (r, mt)"
    and w: "shadow_file fs filename = Has w"
    and cb: "commit_bounded (nat (pageSize db)) w"
    and ok: "copyToShadowWAL C db fs filename = (Ok n, fs')"
  shows "\<exists>k bo chk.
      headerByteOrder (take 32 w) = Ok bo
    \<and> readLastChecksumFrom w (pageSize db) = Ok chk
    \<and> last_commit C bo (BigEndian_Uint32 (drop 16 (take 32 w)))
          (BigEndian_Uint32 (drop 20 (take 32 w))) (nat (pageSize db))
          (drop (length w) r) chk k
    \<and> k * (nat (pageSize db) + 24) \<le> length r - length w
    \<and> n = int (length w) + int (k * (nat (pageSize db) + 24))
    \<and> shadow_file fs' filename
        = Has (w @ take (k * (nat (pageSize db) + 24)) (drop (length w) r))
    \<and> commit_bounded (nat (pageSize db))
          (w @ take (k * (nat (pageSize db) + 24)) (drop (length w) r))"
proof -
  let ?p = "nat (pageSize db)"
  let ?F = "?p + 24"
  let ?r = "drop (length w) r"
  let ?h0 = "BigEndian_Uint32 (drop 16 (take 32 w))"
  let ?h1 = "BigEndian_Uint32 (drop 20 (take 32 w))"
  have w32: "32 \<le> length w" and wm: "(length w - 32) mod ?F = 0"
    using cb by (simp_all add: commit_bounded_def)
  have fa: "frameAlign (int (length w)) (pageSize db) = Some (int (length w))"
    using p len w32 wm by (rule frameAlign_aligned)
  have l32: "\<not> length w < 32" using w32 by simp
  obtain bo where bo: "headerByteOrder (take 32 w) = Ok bo"
    using ok r w fa l32 by (cases "headerByteOrder (take 32 w)")
      (simp_all add: copyToShadowWAL_def Let_def)
  obtain chk where chk: "readLastChecksumFrom w (pageSize db) = Ok chk"
    using ok r w fa l32 bo by (cases "readLastChecksumFrom w (pageSize db)")
      (simp_all add: copyToShadowWAL_def Let_def)
  define n' where "n' = copyToShadowWAL_loop C bo ?h0 ?h1 ?p ?r chk (int (length w)) (int (length w))"
  have res: "copyToShadowWAL C db fs filename =
      (if int (length (take (nat (n' - int (length w))) ?r)) < n' - int (length w)
       then (Err EOF, write_shadow_file fs filename (w @ take (nat (n' - int (length w))) ?r))
       else (Ok n', write_shadow_file fs filename (w @ take (nat (n' - int (length w))) ?r)))"
    using r w fa l32 bo chk by (simp add: copyToShadowWAL_def Let_def n'_def)
  have n: "n = n'" and fs': "fs' = write_shadow_file fs filename (w @ take (nat (n' - int (length w))) ?r)"
    using ok unfolding res by (auto split: if_splits)
  from copyToShadowWAL_loop_last_commit [of C bo ?h0 ?h1 ?p ?r chk "int (length w)" "int (length w)"]
  obtain k where k: "last_commit C bo ?h0 ?h1 ?p ?r chk k" "k * ?F \<le> length ?r"
      "n' = (if k = 0 then int (length w) else int (length w) + int (k * ?F))"
    unfolding n'_def [symmetric] by blast
  have nk': "n' = int (length w) + int (k * ?F)" using k(3) by simp
  then have "n' - int (length w) = int (k * ?F)" by linarith
  then have nk: "nat (n' - int (length w)) = k * ?F" by (simp only: nat_int)
  have le: "k * ?F \<le> length r - length w" using k(2) by simp
  have c: "k = 0 \<or> frame_commit ?p (drop ((k - 1) * ?F) ?r)"
    using k(1) by (simp add: last_commit_def)
  have cb': "commit_bounded ?p (w @ take (k * ?F) ?r)"
    using cb k(2) c by (rule commit_bounded_append)
  have sf: "shadow_file fs' filename = Has (w @ take (k * ?F) ?r)"
    unfolding fs' nk by simp
  show ?thesis
    apply (rule exI [of _ k], rule exI [of _ bo], rule exI [of _ chk])
    using bo chk k(1) le nk' sf cb' unfolding n by simp
qed

lemma ex_lengths [simp]:
  "length ex_hdr512 = 32" "length ex_frame1 = 536" "length ex_frame2 = 536"
  "length ex_frame3 = 536" "length ex_frame_zero_seed = 536"
  by (simp_all add: ex_hdr512_def ex_frame1_def ex_frame2_def ex_frame3_def
      ex_frame_zero_seed_def)

lemma ex_fs512_files:
  "wal_file (ex_fs512 wal) = Has (wal, 2000)"
  "shadow_file (ex_fs512 wal) (ex_gen, ''00000000.wal'') = Has ex_hdr512"
  by (simp_all add: ex_fs512_def shadow_file_def)

lemma ex_copy_result:
  "fst (copyToShadowWAL sqlite_Checksum ex_db512 (ex_fs512 ex_wal) (ex_gen, ''00000000.wal''))
     = Ok 1104"
  by code_simp

text \<open>
  C3: a successful \<open>copyToShadowWAL\<close> on a well-formed segment \<open>w\<close> (a header and whole
  frames, ending on a commit) appends exactly \<open>lastCommitSize - origSize\<close> bytes of the
  live WAL \<open>r\<close>, read at \<open>origSize\<close>, the length of \<open>w\<close>. The size \<open>n\<close> it returns is
  \<open>lastCommitSize = origSize + k * (pageSize + 24)\<close>, where frame \<open>k\<close> after \<open>origSize\<close>
  is the last commit frame among the frames scanned before the end of the file, a salt
  mismatch or a checksum mismatch (\<open>k = 0\<close> and nothing is appended when there is none).
  So the segment again ends on a commit boundary and no frame past the last commit is
  persisted.
\<close>

theorem copyToShadowWAL_commit_boundary:
  assumes "0 \<le> pageSize db" "pageSize db < 2 ^ 63"
    and "int (length w) < 2 ^ 63"
    and "wal_file fs = Has (r, mt)"
    and "shadow_file fs filename = Has w"
    and "commit_bounded (nat (pageSize db)) w"
    and "copyToShadowWAL C db fs filename = (Ok n, fs')"
  shows "\<exists>k bo chk.
      headerByteOrder (take 32 w) = Ok bo
    \<and> readLastChecksumFrom w (pageSize db) = Ok chk
    \<and> last_commit C bo (BigEndian_Uint32 (drop 16 (take 32 w)))
          (BigEndian_Uint32 (drop 20 (take 32 w))) (nat (pageSize db))
          (drop (length w) r) chk k
    \<and> k * (nat (pageSize db) + 24) \<le> length r - length w
    \<and> n = int (length w) + int (k * (nat (pageSize db) + 24))
    \<and> shadow_file fs' filename
        = Has (w @ take (k * (nat (pageSize db) + 24)) (drop (length w) r))
    \<and> commit_bounded (nat (pageSize db))
          (w @ take (k * (nat (pageSize db) + 24)) (drop (length w) r))"
  using assms by (rule copyToShadowWAL_appends)

theorem copyToShadowWAL_commit_boundary_witness:
  "fst (copyToShadowWAL sqlite_Checksum ex_db512 (ex_fs512 ex_wal) (ex_gen, ''00000000.wal''))
     = Ok 1104
   \<and> shadow_file
       (snd (copyToShadowWAL sqlite_Checksum ex_db512 (ex_fs512 ex_wal) (ex_gen, ''00000000.wal'')))
       (ex_gen, ''00000000.wal'')
     = Has (ex_hdr512 @ ex_frame1 @ ex_frame2)
   \<and> commit_bounded 512 (ex_hdr512 @ ex_frame1 @ ex_frame2)"
proof -
  let ?c = "copyToShadowWAL sqlite_Checksum ex_db512 (ex_fs512 ex_wal) (ex_gen, ''00000000.wal'')"
  have p: "0 \<le> pageSize ex_db512" "pageSize ex_db512 < 2 ^ 63" "nat (pageSize ex_db512) = 512"
    by (simp_all add: ex_db512_def)
  have len: "int (length ex_hdr512) < 2 ^ 63" by simp
  have cb: "commit_bounded (nat (pageSize ex_db512)) ex_hdr512"
    by (simp add: commit_bounded_def)
  have ok: "?c = (Ok 1104, snd ?c)"
    using ex_copy_result by (simp add: prod_eq_iff)
  from copyToShadowWAL_commit_boundary [OF p(1,2) len ex_fs512_files cb ok]
  obtain k where k: "(1104::int) = int (length ex_hdr512) + int (k * (nat (pageSize ex_db512) + 24))"
      "shadow_file (snd ?c) (ex_gen, ''00000000.wal'')
         = Has (ex_hdr512 @ take (k * (nat (pageSize ex_db512) + 24)) (drop (length ex_hdr512) ex_wal))"
      "commit_bounded (nat (pageSize ex_db512))
         (ex_hdr512 @ take (k * (nat (pageSize ex_db512) + 24)) (drop (length ex_hdr512) ex_wal))"
    by blast
  have "k = 2" using k(1) p(3) by simp
  moreover have "take (2 * 536) (drop 32 ex_wal) = ex_frame1 @ ex_frame2"
    by (simp add: ex_wal_def)
  ultimately show ?thesis using k(2,3) p(3) ex_copy_result by simp
qed

text \<open>
  Hence every segment the engine writes, from the header on, is commit-bounded.
\<close>

lemma shadow_segment_commit_bounded:
  assumes p: "0 \<le> pageSize db" "pageSize db < 2 ^ 63"
    and seg: "shadow_segment C db w"
  shows "commit_bounded (nat (pageSize db)) w"
  using seg
proof (induction rule: shadow_segment.induct)
  case (header hdr)
  then show ?case by (simp add: commit_bounded_def)
next
  case (copy w fs r mt filename n fs' w')
  from copyToShadowWAL_appends [OF p copy.hyps(2,3,4) copy.IH copy.hyps(5)] copy.hyps(6)
  show ?case by auto
qed
subsection \<open>The checksum seed of the frame copy\<close>

lemma BigEndian_Uint32_take: "4 \<le> n \<Longrightarrow> BigEndian_Uint32 (take n b) = BigEndian_Uint32 b"
  by (simp add: BigEndian_Uint32_def min_def)

lemma readLastChecksumFrom_header_only:
  assumes "0 \<le> p" "p < 2 ^ 63" "length w = 32"
  shows "readLastChecksumFrom w p
     = Ok (BigEndian_Uint32 (drop 24 w), BigEndian_Uint32 (drop 28 w))"
proof -
  have fa: "frameAlign 32 p = Some 32"
    using assms by (simp add: frameAlign_eq)
  have "BigEndian_Uint32 (drop 4 (take 8 (drop 24 w))) = BigEndian_Uint32 (take 4 (drop 28 w))"
    by (simp add: drop_take)
  then have d: "BigEndian_Uint32 (drop 4 (take 8 (drop 24 w))) = BigEndian_Uint32 (drop 28 w)"
    by (simp add: BigEndian_Uint32_take)
  show ?thesis
    using assms(3) d
    by (simp add: readLastChecksumFrom_def fa ReadAt_def WALHeaderSize_def
        WALHeaderChecksumOffset_def BigEndian_Uint32_take Let_def)
qed

lemma readLastChecksumFrom_last_frame:
  assumes p: "0 \<le> p" and len: "int (length w) < 2 ^ 63"
    and full: "32 + (p + 24) \<le> int (length w)"
    and fa: "frameAlign (int (length w)) p = Some sz"
  shows "readLastChecksumFrom w p
     = Ok (BigEndian_Uint32 (drop (nat (sz - (p + 24) + 16)) w),
           BigEndian_Uint32 (drop (nat (sz - (p + 24) + 20)) w))"
proof -
  let ?s = "int (length w)"
  let ?N = "(?s - 32) div (p + 24)"
  have p63: "p < 2 ^ 63" using full len by simp
  have sz: "sz = 32 + ?N * (p + 24)"
    using fa frameAlign_eq [of ?s p] p p63 len full by simp
  have le: "sz \<le> ?s" unfolding sz using full p by (intro aligned_le) auto
  have "1 * (p + 24) \<le> ?s - 32" using full by simp
  then have "1 \<le> ?N" using p by (subst (asm) mult_le_iff_le_div) auto
  then have "1 * (p + 24) \<le> ?N * (p + 24)" using p by (intro mult_right_mono) auto
  then have ge: "32 + (p + 24) \<le> sz" unfolding sz by simp
  let ?off = "sz - (p + 24) + 16"
  have off0: "0 \<le> ?off" using ge by simp
  have offle: "?off + 8 \<le> ?s" using le p by simp
  have big: "?s > WALHeaderSize" using full p by (simp add: WALHeaderSize_def)
  have offeq: "sz - p - WALFrameHeaderSize + WALFrameHeaderChecksumOffset = ?off"
    by (simp add: WALFrameHeaderSize_def WALFrameHeaderChecksumOffset_def)
  have "drop 4 (take 8 (drop (nat ?off) w)) = take 4 (drop (nat ?off + 4) w)"
    by (simp add: drop_take add.commute)
  moreover have "nat ?off + 4 = nat (sz - (p + 24) + 20)" using off0 by simp
  ultimately have d: "BigEndian_Uint32 (drop 4 (take 8 (drop (nat ?off) w)))
      = BigEndian_Uint32 (drop (nat (sz - (p + 24) + 20)) w)"
    by (simp add: BigEndian_Uint32_take)
  have ra: "ReadAt w 8 ?off = Ok (take 8 (drop (nat ?off) w))"
    using off0 offle by (simp add: ReadAt_def)
  show ?thesis
    unfolding readLastChecksumFrom_def fa using big ra d
    by (simp add: Let_def BigEndian_Uint32_take WALFrameHeaderSize_def
        WALFrameHeaderChecksumOffset_def)
qed

lemma copyToShadowWAL_seed_eq:
  assumes p: "0 \<le> pageSize db" "pageSize db < 2 ^ 63"
    and len: "int (length w) < 2 ^ 63"
    and r: "wal_file fs = Has (r, mt)"
    and w: "shadow_file fs filename = Has w"
    and bo: "headerByteOrder (take 32 w) = Ok bo"
    and fa: "frameAlign (int (length w)) (pageSize db) = Some origSize"
    and shape: "length w = 32 \<or> 32 + (pageSize db + 24) \<le> int (length w)"
  shows "fst (copyToShadowWAL C db fs filename) =
     Ok (copyToShadowWAL_loop C bo (BigEndian_Uint32 (drop 16 (take 32 w)))
           (BigEndian_Uint32 (drop 20 (take 32 w))) (nat (pageSize db))
           (drop (nat origSize) r)
           (if length w = 32
            then (BigEndian_Uint32 (drop 24 w), BigEndian_Uint32 (drop 28 w))
            else (BigEndian_Uint32 (drop (nat (origSize - (pageSize db + 24) + 16)) w),
                  BigEndian_Uint32 (drop (nat (origSize - (pageSize db + 24) + 20)) w)))
           origSize origSize)"
proof -
  let ?seed = "if length w = 32
            then (BigEndian_Uint32 (drop 24 w), BigEndian_Uint32 (drop 28 w))
            else (BigEndian_Uint32 (drop (nat (origSize - (pageSize db + 24) + 16)) w),
                  BigEndian_Uint32 (drop (nat (origSize - (pageSize db + 24) + 20)) w))"
  let ?r = "drop (nat origSize) r"
  have l32: "\<not> length w < 32" using shape p by auto
  have chk: "readLastChecksumFrom w (pageSize db) = Ok ?seed"
  proof (cases "length w = 32")
    case True
    then show ?thesis using readLastChecksumFrom_header_only [OF p True] by simp
  next
    case False
    then have "32 + (pageSize db + 24) \<le> int (length w)" using shape by simp
    from readLastChecksumFrom_last_frame [OF p(1) len this fa] False show ?thesis by simp
  qed
  define n where "n = copyToShadowWAL_loop C bo (BigEndian_Uint32 (drop 16 (take 32 w)))
           (BigEndian_Uint32 (drop 20 (take 32 w))) (nat (pageSize db)) ?r ?seed origSize origSize"
  from copyToShadowWAL_loop_last_commit [of C bo "BigEndian_Uint32 (drop 16 (take 32 w))"
      "BigEndian_Uint32 (drop 20 (take 32 w))" "nat (pageSize db)" ?r ?seed origSize origSize]
  obtain k where k: "k * (nat (pageSize db) + 24) \<le> length ?r"
      "n = (if k = 0 then origSize else origSize + int (k * (nat (pageSize db) + 24)))"
    unfolding n_def [symmetric] by blast
  have enough: "\<not> int (length (take (nat (n - origSize)) ?r)) < n - origSize"
  proof (cases "k = 0")
    case True
    then show ?thesis using k(2) by simp
  next
    case False
    have "n - origSize = int (k * (nat (pageSize db) + 24))" using k(2) False by simp
    then have "nat (n - origSize) = k * (nat (pageSize db) + 24)" by (simp only: nat_int)
    then have "length (take (nat (n - origSize)) ?r) = k * (nat (pageSize db) + 24)"
      using k(1) by simp
    then show ?thesis using k(2) False by simp
  qed
  show ?thesis
    using r w fa l32 bo chk enough
    by (simp add: copyToShadowWAL_def Let_def n_def [symmetric] del: length_take)
qed

lemma ex_hdr512_order: "headerByteOrder (take 32 ex_hdr512) = Ok LittleEndian"
  by (simp add: headerByteOrder_def ex_hdr512_def BigEndian_Uint32_def)

text \<open>
  C2 as stated fails: for a header-only segment the running checksum is not seeded
  with \<open>(0, 0)\<close>. \<open>readLastChecksumFrom\<close> returns the checksum stored in the header
  (bytes 24 to 31); and for a live WAL whose first frame verifies against the seed
  \<open>(0, 0)\<close> and is a commit frame, \<open>copyToShadowWAL\<close> copies nothing: it returns 32.
\<close>

theorem readLastChecksumFrom_header_counterexample:
  "frameAlign (int (length ex_hdr)) 4096 = Some 32
   \<and> readLastChecksumFrom ex_hdr 4096 = Ok (0xe1f30e1d, 0x9ddde7c3)
   \<and> frame_accepted sqlite_Checksum LittleEndian 0x0a0b0c0d 0x01020304 512 ex_frame_zero_seed (0, 0)
   \<and> frame_commit 512 ex_frame_zero_seed
   \<and> fst (copyToShadowWAL sqlite_Checksum ex_db512 (ex_fs512 ex_wal_zero_seed)
            (ex_gen, ''00000000.wal'')) = Ok 32"
proof -
  have 1: "frameAlign (int (length ex_hdr)) 4096 = Some 32" by (rule ex_hdr_aligned)
  have "length ex_hdr = 32" by (simp add: ex_hdr_def)
  from readLastChecksumFrom_header_only [OF _ _ this, of 4096]
  have 2: "readLastChecksumFrom ex_hdr 4096 = Ok (0xe1f30e1d, 0x9ddde7c3)"
    by (simp add: ex_hdr_def BigEndian_Uint32_def)
  have 3: "frame_accepted sqlite_Checksum LittleEndian 0x0a0b0c0d 0x01020304 512
      ex_frame_zero_seed (0, 0)"
    by code_simp
  have 4: "frame_commit 512 ex_frame_zero_seed"
    by (simp add: frame_commit_def ex_frame_zero_seed_def BigEndian_Uint32_def)
  have 5: "fst (copyToShadowWAL sqlite_Checksum ex_db512 (ex_fs512 ex_wal_zero_seed)
            (ex_gen, ''00000000.wal'')) = Ok 32"
    by code_simp
  from 1 2 3 4 5 show ?thesis by blast
qed


text \<open>
  C2 as amended: in \<open>copyToShadowWAL\<close> the running checksum that validates the first
  newly read frame is the checksum stored in the shadow header (bytes 24 to 31) when
  the shadow file is the 32-byte header alone, and the checksum stored in the last full
  frame of the shadow file (bytes 16 to 23 of that frame) when it holds at least one
  full frame.
\<close>

theorem copyToShadowWAL_checksum_seed:
  assumes p: "0 \<le> pageSize db" "pageSize db < 2 ^ 63"
    and len: "int (length w) < 2 ^ 63"
    and r: "wal_file fs = Has (r, mt)"
    and w: "shadow_file fs filename = Has w"
    and bo: "headerByteOrder (take 32 w) = Ok bo"
    and fa: "frameAlign (int (length w)) (pageSize db) = Some origSize"
    and shape: "length w = 32 \<or> 32 + (pageSize db + 24) \<le> int (length w)"
  shows "fst (copyToShadowWAL C db fs filename) =
     Ok (copyToShadowWAL_loop C bo (BigEndian_Uint32 (drop 16 (take 32 w)))
           (BigEndian_Uint32 (drop 20 (take 32 w))) (nat (pageSize db))
           (drop (nat origSize) r)
           (if length w = 32
            then (BigEndian_Uint32 (drop 24 w), BigEndian_Uint32 (drop 28 w))
            else (BigEndian_Uint32 (drop (nat (origSize - (pageSize db + 24) + 16)) w),
                  BigEndian_Uint32 (drop (nat (origSize - (pageSize db + 24) + 20)) w)))
           origSize origSize)"
  using p len r w bo fa shape by (rule copyToShadowWAL_seed_eq)

theorem copyToShadowWAL_checksum_seed_witness:
  "fst (copyToShadowWAL sqlite_Checksum ex_db512 (ex_fs512 ex_wal) (ex_gen, ''00000000.wal''))
     = Ok (copyToShadowWAL_loop sqlite_Checksum LittleEndian 0x0a0b0c0d 0x01020304 512
            (drop 32 ex_wal) (0xe1d70e1d, 0x9db3e7c3) 32 32)"
proof -
  have p: "0 \<le> pageSize ex_db512" "pageSize ex_db512 < 2 ^ 63"
    by (simp_all add: ex_db512_def)
  have len: "int (length ex_hdr512) < 2 ^ 63" by simp
  have fa: "frameAlign (int (length ex_hdr512)) (pageSize ex_db512) = Some 32"
    using frameAlign_eq [of 32 512] by (simp add: ex_db512_def)
  have shape: "length ex_hdr512 = 32 \<or> 32 + (pageSize ex_db512 + 24) \<le> int (length ex_hdr512)"
    by simp
  from copyToShadowWAL_checksum_seed [OF p len ex_fs512_files ex_hdr512_order fa shape,
      of sqlite_Checksum]
  show ?thesis
    by (simp add: ex_db512_def) (simp add: ex_hdr512_def BigEndian_Uint32_def)
qed

subsection \<open>Verification and new generations\<close>

lemma CurrentShadowWALIndex_loop_nonneg:
  "0 \<le> index \<Longrightarrow> 0 \<le> fst (CurrentShadowWALIndex_loop fis index sz)"
  by (induction fis index sz rule: CurrentShadowWALIndex_loop.induct)
     (auto split: option.splits)

lemma CurrentShadowWALIndex_nonneg:
  "CurrentShadowWALIndex fs gen = Ok (index, tot) \<Longrightarrow> 0 \<le> index"
  using CurrentShadowWALIndex_loop_nonneg [of 0 _ 0]
  by (auto simp: CurrentShadowWALIndex_def split: if_splits io.splits) (metis fst_conv)

lemma frameAlign_aligned_size:
  assumes "0 \<le> p" "p < 2 ^ 63" "int (length b) < 2 ^ 63"
  shows "frameAlign (int (length b)) p = Some (aligned_size (int (length b)) p)"
  using assms by (simp add: frameAlign_eq aligned_size_def)

lemma aligned_size_le:
  assumes "0 \<le> p" "0 \<le> s"
  shows "aligned_size s p \<le> s"
  using assms aligned_le [of s p] by (simp add: aligned_size_def)

lemma aligned_size_frame:
  assumes "0 \<le> p" "32 < aligned_size s p"
  shows "32 + (p + 24) \<le> aligned_size s p"
proof -
  let ?N = "(s - 32) div (p + 24)"
  have s: "\<not> s < 32" using assms(2) by (auto simp: aligned_size_def split: if_splits)
  then have a: "aligned_size s p = 32 + ?N * (p + 24)" by (simp add: aligned_size_def)
  have "0 < ?N * (p + 24)" using assms(2) a by simp
  then have "0 < ?N" using assms(1) by (simp add: zero_less_mult_iff)
  then have "1 * (p + 24) \<le> ?N * (p + 24)" using assms(1) by (intro mult_right_mono) auto
  then show ?thesis using a by simp
qed


lemma readFileAt_last_frame:
  assumes "0 \<le> p" "32 + (p + 24) \<le> sz" "sz \<le> int (length b)"
  shows "readFileAt (Has b) (sz - (p + WALFrameHeaderSize)) (p + WALFrameHeaderSize)
     = Ok (last_frame p b sz)"
  using assms
  by (simp add: readFileAt_def ReadAt_def last_frame_def WALFrameHeaderSize_def)

lemma readWALHeader_Has:
  "32 \<le> length b \<Longrightarrow> readWALHeader (Has b) = Ok (take 32 b)"
  by (auto simp: readWALHeader_def)

lemma verify_lastPage_reason:
  assumes p: "0 \<le> pageSize db"
    and sz: "shadowWALSize info \<le> int (length wal)" "shadowWALSize info \<le> int (length shadow)"
      "32 < shadowWALSize info \<longrightarrow> 32 + (pageSize db + 24) \<le> shadowWALSize info"
    and r: "reason info = []"
  shows "\<exists>info'. verify_lastPage db wal shadow info = Ok info'
    \<and> reason info' =
        (if 32 < shadowWALSize info
            \<and> last_frame (pageSize db) wal (shadowWALSize info)
                \<noteq> last_frame (pageSize db) shadow (shadowWALSize info)
         then ''wal overwritten by another process'' else [])"
proof (cases "32 < shadowWALSize info")
  case False
  then show ?thesis using r by (simp add: verify_lastPage_def WALHeaderSize_def)
next
  case True
  then have f: "32 + (pageSize db + 24) \<le> shadowWALSize info" using sz(3) by simp
  show ?thesis
    using True r
    by (simp add: verify_lastPage_def WALHeaderSize_def Let_def
        readFileAt_last_frame [OF p f sz(1)] readFileAt_last_frame [OF p f sz(2)])
qed

lemma verify_shadow_reason:
  assumes p: "0 \<le> pageSize db" "pageSize db < 2 ^ 63"
    and ix: "0 \<le> index"
    and g: "generation info = gen" "gen \<noteq> []"
    and i: "walSize info = int (length wal)" "reason info = []" "\<not> restart info"
    and sf: "\<forall>e. shadow_file fs (gen, FormatWALPath index) \<noteq> Fails e"
      "\<forall>b. shadow_file fs (gen, FormatWALPath index) = Has b \<longrightarrow> int (length b) < 2 ^ 63"
  shows "\<exists>info'. verify_shadow db fs wal index info = Ok info'
    \<and> reason info' =
        (case shadow_file fs (gen, FormatWALPath index) of
           Has sh \<Rightarrow>
             let sz = aligned_size (int (length sh)) (pageSize db) in
             if sz < 32 then ''short shadow wal''
             else if sz > int (length wal) then ''wal truncated by another process''
             else if take 32 wal \<noteq> take 32 sh \<and> sz = 32 then ''wal header only, mismatched''
             else if sz > 32 \<and> last_frame (pageSize db) wal sz \<noteq> last_frame (pageSize db) sh sz
             then ''wal overwritten by another process''
             else []
         | x \<Rightarrow> ''no shadow wal'')"
proof -
  have path: "ShadowWALPath (generation info) index = Ok (gen, FormatWALPath index)"
    using ix g by (simp add: ShadowWALPath_def)
  show ?thesis
  proof (cases "shadow_file fs (gen, FormatWALPath index)")
    case NotExist
    then show ?thesis using path by (simp add: verify_shadow_def)
  next
    case (Fails e)
    then show ?thesis using sf(1) by simp
  next
    case (Has sh)
    let ?sz = "aligned_size (int (length sh)) (pageSize db)"
    have len: "int (length sh) < 2 ^ 63" using sf(2) Has by simp
    have fa: "frameAlign (int (length sh)) (pageSize db) = Some ?sz"
      using p len by (rule frameAlign_aligned_size)
    have le: "?sz \<le> int (length sh)" using p(1) by (intro aligned_size_le) auto
    show ?thesis
    proof (cases "?sz < 32 \<or> ?sz > int (length wal)")
      case True
      then show ?thesis
        using path Has fa i by (auto simp: verify_shadow_def Let_def WALHeaderSize_def)
    next
      case False
      then have ge: "32 \<le> ?sz" and wl: "?sz \<le> int (length wal)" by simp_all
      have h0: "readWALHeader (Has wal) = Ok (take 32 wal)"
        using ge wl by (intro readWALHeader_Has) simp
      have h1: "readWALHeader (Has sh) = Ok (take 32 sh)"
        using ge le by (intro readWALHeader_Has) simp
      have fr: "32 < ?sz \<longrightarrow> 32 + (pageSize db + 24) \<le> ?sz"
        using aligned_size_frame [OF p(1), of "int (length sh)"] by simp
      show ?thesis
      proof (cases "take 32 wal \<noteq> take 32 sh")
        case differ: True
        let ?i = "info\<lparr>shadowWALPath := (gen, FormatWALPath index), shadowWALSize := ?sz,
                      restart := True\<rparr>"
        have eq: "verify_shadow db fs wal index info =
            (if ?sz = 32 then Ok (?i\<lparr>reason := ''wal header only, mismatched''\<rparr>)
             else verify_lastPage db wal sh ?i)"
          using path Has fa i False h0 h1 differ
          by (simp add: verify_shadow_def Let_def WALHeaderSize_def)
        show ?thesis
        proof (cases "?sz = 32")
          case True
          then show ?thesis using eq Has False differ by (simp add: Let_def)
        next
          case n32: False
          have "\<exists>info'. verify_lastPage db wal sh ?i = Ok info'
              \<and> reason info' = (if 32 < shadowWALSize ?i
                  \<and> last_frame (pageSize db) wal (shadowWALSize ?i)
                      \<noteq> last_frame (pageSize db) sh (shadowWALSize ?i)
                 then ''wal overwritten by another process'' else [])"
            using wl le fr i(2) by (intro verify_lastPage_reason [OF p(1)]) simp_all
          then show ?thesis using eq Has False n32 by (auto simp: Let_def)
        qed
      next
        case same: False
        let ?i = "info\<lparr>shadowWALPath := (gen, FormatWALPath index), shadowWALSize := ?sz\<rparr>"
        have eq: "verify_shadow db fs wal index info = verify_lastPage db wal sh ?i"
          using path Has fa i False h0 h1 same
          by (simp add: verify_shadow_def Let_def WALHeaderSize_def)
        have "\<exists>info'. verify_lastPage db wal sh ?i = Ok info'
            \<and> reason info' = (if 32 < shadowWALSize ?i
                \<and> last_frame (pageSize db) wal (shadowWALSize ?i)
                    \<noteq> last_frame (pageSize db) sh (shadowWALSize ?i)
               then ''wal overwritten by another process'' else [])"
          using wl le fr i(2) by (intro verify_lastPage_reason [OF p(1)]) simp_all
        then show ?thesis using eq Has False same by (auto simp: Let_def)
      qed
    qed
  qed
qed


lemma createGeneration_Ok:
  "createGeneration C db newgen fs = (Ok g, fs') \<Longrightarrow> g = newgen \<and> newgen \<noteq> []"
  by (auto simp: createGeneration_def Let_def ShadowWALPath_def
      split: result.splits prod.splits if_splits)

lemma Sync_verify_new_generation:
  assumes "verify db fs = Ok info" "reason info \<noteq> []"
  shows "Sync_verify C db newgen fs =
    (case createGeneration C db newgen fs of
       (Ok g, fs') \<Rightarrow>
         (Ok (info\<lparr>generation := g, shadowWALPath := (g, FormatWALPath 0),
                   shadowWALSize := 32, restart := False, reason := []\<rparr>), fs')
     | (Err e, fs') \<Rightarrow> (Err (Wrap ''create generation'' e), fs')
     | (Panic m, fs') \<Rightarrow> (Panic m, fs'))"
proof (cases "createGeneration C db newgen fs")
  case (Pair res fs')
  show ?thesis
  proof (cases res)
    case (Ok g)
    with Pair have "g = newgen \<and> newgen \<noteq> []" by (intro createGeneration_Ok) simp
    then show ?thesis using assms Pair Ok
      by (simp add: Sync_verify_def ShadowWALPath_def WALHeaderSize_def)
  next
    case (Err e)
    then show ?thesis using assms Pair by (simp add: Sync_verify_def)
  next
    case (Panic m)
    then show ?thesis using assms Pair by (simp add: Sync_verify_def)
  qed
qed

lemma verify_returns_reason:
  assumes p: "0 \<le> pageSize db" "pageSize db < 2 ^ 63"
    and cur: "CurrentGeneration fs = Ok gen"
    and live: "gen \<noteq> [] \<longrightarrow>
        db_file fs = Has dbfi \<and> wal_file fs = Has (wal, wt)
        \<and> CurrentShadowWALIndex fs gen = Ok (index, tot)
        \<and> (\<forall>e. shadow_file fs (gen, FormatWALPath index) \<noteq> Fails e)
        \<and> (\<forall>b. shadow_file fs (gen, FormatWALPath index) = Has b \<longrightarrow> int (length b) < 2 ^ 63)"
  shows "\<exists>info. verify db fs = Ok info
    \<and> reason info = verify_reason (pageSize db) gen index
        (case shadow_file fs (gen, FormatWALPath index) of Has b \<Rightarrow> Some b | x \<Rightarrow> None) wal"
proof (cases "gen = []")
  case True
  then show ?thesis using cur by (simp add: verify_def verify_reason_def)
next
  case False
  then have l: "db_file fs = Has dbfi" "wal_file fs = Has (wal, wt)"
      "CurrentShadowWALIndex fs gen = Ok (index, tot)"
      "\<forall>e. shadow_file fs (gen, FormatWALPath index) \<noteq> Fails e"
      "\<forall>b. shadow_file fs (gen, FormatWALPath index) = Has b \<longrightarrow> int (length b) < 2 ^ 63"
    using live by simp_all
  have ix: "0 \<le> index" using l(3) by (rule CurrentShadowWALIndex_nonneg)
  let ?info = "syncInfo0\<lparr>generation := gen, dbModTime := snd dbfi,
                 walSize := int (length wal), walModTime := wt\<rparr>"
  show ?thesis
  proof (cases "index \<ge> MaxIndex")
    case True
    then show ?thesis using cur False l
      by (simp add: verify_def verify_reason_def Let_def)
  next
    case small: False
    have eq: "verify db fs = verify_shadow db fs wal index ?info"
      using cur False l small by (simp add: verify_def Let_def)
    have "\<exists>info'. verify_shadow db fs wal index ?info = Ok info'
      \<and> reason info' =
        (case shadow_file fs (gen, FormatWALPath index) of
           Has sh \<Rightarrow>
             let sz = aligned_size (int (length sh)) (pageSize db) in
             if sz < 32 then ''short shadow wal''
             else if sz > int (length wal) then ''wal truncated by another process''
             else if take 32 wal \<noteq> take 32 sh \<and> sz = 32 then ''wal header only, mismatched''
             else if sz > 32 \<and> last_frame (pageSize db) wal sz \<noteq> last_frame (pageSize db) sh sz
             then ''wal overwritten by another process''
             else []
         | x \<Rightarrow> ''no shadow wal'')"
      using False l(4,5) by (intro verify_shadow_reason [OF p ix]) (simp_all add: syncInfo0_def)
    then show ?thesis unfolding eq using False small
      by (auto simp: verify_reason_def split: io.splits)
  qed
qed

lemma ex_truncated_generation: "CurrentGeneration ex_fs_truncated = Ok ex_gen"
  by (simp add: CurrentGeneration_def ex_fs_truncated_def ex_gen_def TrimSpace_def isSpace_def
      GenerationNameLen_def)

lemma ex_truncated_index: "CurrentShadowWALIndex ex_fs_truncated ex_gen = Ok (0, 1104)"
  by (simp add: CurrentShadowWALIndex_def ex_fs_truncated_def HasSuffix_def WALExt_def
      ParseWALPath_def hexValue_def hexDigits_def upto.simps)
     (simp add: ex_gen_def)

lemma ex_truncated_segment:
  "shadow_file ex_fs_truncated (ex_gen, FormatWALPath 0) = Has (ex_hdr512 @ ex_frame1 @ ex_frame2)"
  by (simp add: shadow_file_def ex_fs_truncated_def FormatWALPath_0_1)

lemma ex_truncated_verify:
  "verify ex_db512 ex_fs_truncated =
     Ok \<lparr>generation = ex_gen, dbModTime = 1000, walSize = 32, walModTime = 2000,
         shadowWALPath = (ex_gen, ''00000000.wal''), shadowWALSize = 1104, restart = False,
         reason = ''wal truncated by another process''\<rparr>"
  by code_simp

lemma hexDigits_not_space: "c \<in> set hexDigits \<Longrightarrow> \<not> isSpace c"
  by (auto simp: hexDigits_def isSpace_def)

lemma TrimSpace_newline:
  assumes "s \<noteq> []" "\<forall>c\<in>set s. \<not> isSpace c"
  shows "TrimSpace (s @ [CHR 0x0A]) = s"
proof -
  obtain c cs where s: "s = c # cs" using assms(1) by (cases s) auto
  have "\<not> isSpace c" using assms(2) s by simp
  then have 1: "dropWhile isSpace (s @ [CHR 0x0A]) = s @ [CHR 0x0A]" using s by simp
  have nl: "isSpace (CHR 0x0A)" by (simp add: isSpace_def)
  have "rev s \<noteq> []" using assms(1) by simp
  then obtain d ds where r: "rev s = d # ds" by (cases "rev s") auto
  have "d \<in> set s" using r by (metis list.set_intros(1) set_rev)
  then have "\<not> isSpace d" using assms(2) by simp
  then have 2: "dropWhile isSpace (rev s) = rev s" using r by simp
  show ?thesis unfolding TrimSpace_def 1 using nl 2 by simp
qed

lemma generation_name_props:
  assumes "generation_name g"
  shows "g \<noteq> []" "length g = GenerationNameLen" "TrimSpace (g @ [CHR 0x0A]) = g"
proof -
  show l: "length g = GenerationNameLen" using assms by (simp add: generation_name_def)
  then show ne: "g \<noteq> []" by (auto simp: GenerationNameLen_def)
  have "\<forall>c\<in>set g. \<not> isSpace c"
    using assms hexDigits_not_space by (auto simp: generation_name_def list_all_iff)
  then show "TrimSpace (g @ [CHR 0x0A]) = g" using ne by (intro TrimSpace_newline)
qed

lemma CurrentGeneration_pointer:
  assumes "generation_name g" "generation_file fs = Has (g @ [CHR 0x0A])"
  shows "CurrentGeneration fs = Ok g"
  using assms generation_name_props [OF assms(1)]
  by (simp add: CurrentGeneration_def Let_def)

lemma write_shadow_file_fields [simp]:
  "generations (write_shadow_file fs path b) = generations fs"
  "generation_file (write_shadow_file fs path b) = generation_file fs"
  "remove_err (write_shadow_file fs path b) = remove_err fs"
  "wal_file (write_shadow_file fs path b) = wal_file fs"
  "db_file (write_shadow_file fs path b) = db_file fs"
  by (simp_all add: write_shadow_file_def)

lemma copyToShadowWAL_fields:
  "generations (snd (copyToShadowWAL C db fs filename)) = generations fs"
  "generation_file (snd (copyToShadowWAL C db fs filename)) = generation_file fs"
  "remove_err (snd (copyToShadowWAL C db fs filename)) = remove_err fs"
  by (simp_all add: copyToShadowWAL_def Let_def split: io.split option.split result.split)

lemma shadow_file_cong:
  "wal_dirs a (fst path) = wal_dirs b (fst path) \<Longrightarrow> shadow_file a path = shadow_file b path"
  by (simp add: shadow_file_def)

lemma copyToShadowWAL_header_only:
  assumes p: "0 \<le> pageSize db" "pageSize db < 2 ^ 63"
    and r: "wal_file fs = Has (r, mt)"
    and w: "shadow_file fs filename = Has hdr"
    and h: "length hdr = 32"
    and bo: "headerByteOrder (take 32 hdr) = Ok bo"
  shows "\<exists>n k. fst (copyToShadowWAL C db fs filename) = Ok n
    \<and> shadow_file (snd (copyToShadowWAL C db fs filename)) filename
        = Has (hdr @ take (k * (nat (pageSize db) + 24)) (drop 32 r))
    \<and> commit_bounded (nat (pageSize db))
        (hdr @ take (k * (nat (pageSize db) + 24)) (drop 32 r))"
proof -
  let ?c = "copyToShadowWAL C db fs filename"
  have len: "int (length hdr) < 2 ^ 63" using h by simp
  have fa: "frameAlign (int (length hdr)) (pageSize db) = Some 32"
    using p h by (simp add: frameAlign_eq)
  have shape: "length hdr = 32 \<or> 32 + (pageSize db + 24) \<le> int (length hdr)" using h by simp
  from copyToShadowWAL_seed_eq [OF p len r w bo fa shape, of C]
  obtain n where n: "fst ?c = Ok n" by blast
  then have ok: "?c = (Ok n, snd ?c)" by (simp add: prod_eq_iff)
  have cb: "commit_bounded (nat (pageSize db)) hdr" using h by (simp add: commit_bounded_def)
  from copyToShadowWAL_appends [OF p len r w cb ok] h n show ?thesis by auto
qed


lemma BigEndian_Uint32_drop_take:
  "n + 4 \<le> m \<Longrightarrow> BigEndian_Uint32 (drop n (take m b)) = BigEndian_Uint32 (drop n b)"
  by (simp add: BigEndian_Uint32_def drop_take min_def)

lemma initShadowWALFile_ok:
  assumes p: "0 \<le> pageSize db" "pageSize db < 2 ^ 63"
    and r: "wal_file fs = Has (wal, wt)"
    and v: "valid_wal_header C wal"
  shows "\<exists>n k. fst (initShadowWALFile C db fs filename) = Ok n
    \<and> shadow_file (snd (initShadowWALFile C db fs filename)) filename
        = Has (take 32 wal @ take (k * (nat (pageSize db) + 24)) (drop 32 wal))
    \<and> commit_bounded (nat (pageSize db))
        (take 32 wal @ take (k * (nat (pageSize db) + 24)) (drop 32 wal))
    \<and> generations (snd (initShadowWALFile C db fs filename)) = generations fs
    \<and> generation_file (snd (initShadowWALFile C db fs filename)) = generation_file fs
    \<and> remove_err (snd (initShadowWALFile C db fs filename)) = remove_err fs"
proof -
  let ?hdr = "take 32 wal"
  let ?fs1 = "write_shadow_file fs filename ?hdr"
  let ?c = "copyToShadowWAL C db ?fs1 filename"
  have l: "32 \<le> length wal" using v by (simp add: valid_wal_header_def)
  obtain bo where bo: "headerByteOrder ?hdr = Ok bo"
    and ck: "C bo 0 0 (take 24 wal) = (BigEndian_Uint32 (drop 24 wal), BigEndian_Uint32 (drop 28 wal))"
    using v by (auto simp: valid_wal_header_def split: result.splits)
  have rh: "readWALHeader (Has wal) = Ok ?hdr" using l by (rule readWALHeader_Has)
  have t24: "take 24 ?hdr = take 24 wal" by (simp add: min_def)
  have d: "BigEndian_Uint32 (drop 24 ?hdr) = BigEndian_Uint32 (drop 24 wal)"
    "BigEndian_Uint32 (drop 28 ?hdr) = BigEndian_Uint32 (drop 28 wal)"
    by (simp_all add: BigEndian_Uint32_drop_take)
  have eq: "initShadowWALFile C db fs filename =
      (case ?c of (Err e, fs') \<Rightarrow> (Err (Wrap ''cannot copy to new shadow wal'' e), fs')
       | (r, fs') \<Rightarrow> (r, fs'))"
    using r rh bo ck t24 d by (simp add: initShadowWALFile_def Let_def)
  have h32: "length ?hdr = 32" using l by simp
  have bo': "headerByteOrder (take 32 ?hdr) = Ok bo" using bo by simp
  have r1: "wal_file ?fs1 = Has (wal, wt)" using r by simp
  have w1: "shadow_file ?fs1 filename = Has ?hdr" by simp
  from copyToShadowWAL_header_only [OF p r1 w1 h32 bo', of C]
  obtain n k where c: "fst ?c = Ok n"
    "shadow_file (snd ?c) filename = Has (?hdr @ take (k * (nat (pageSize db) + 24)) (drop 32 wal))"
    "commit_bounded (nat (pageSize db)) (?hdr @ take (k * (nat (pageSize db) + 24)) (drop 32 wal))"
    by blast
  obtain fs2 where c2: "?c = (Ok n, fs2)" using c(1) by (cases ?c) auto
  have res: "initShadowWALFile C db fs filename = (Ok n, fs2)"
    unfolding eq c2 by simp
  have fs2: "fs2 = snd ?c" using c2 by simp
  show ?thesis
    unfolding res using c(2,3) copyToShadowWAL_fields [of C db ?fs1 filename]
    unfolding fs2 [symmetric] by auto
qed

lemma cleanGenerations_loop_fields:
  "generation_file (snd (cleanGenerations_loop gen fis fs)) = generation_file fs
   \<and> remove_err (snd (cleanGenerations_loop gen fis fs)) = remove_err fs"
  by (induction fis arbitrary: fs) (auto split: option.splits)

lemma cleanWAL_min_fresh:
  assumes "\<forall>r\<in>set rs. Pos.Generation (LastPos r) \<noteq> gen" "mn \<le> 0"
  shows "cleanWAL_min gen rs mn \<le> 0"
  using assms
proof (induction rs arbitrary: mn)
  case Nil
  then show ?case by simp
next
  case (Cons r rs)
  have i: "replicated_index gen r = 0" using Cons.prems(1) by (simp add: replicated_index_def)
  have "(if mn = - 1 \<or> replicated_index gen r < mn then replicated_index gen r else mn) \<le> 0"
    using Cons.prems(2) i by simp
  then show ?case unfolding cleanWAL_min_step using Cons.prems(1) by (intro Cons.IH) auto
qed

lemma clean_new_generation:
  assumes g: "generation_name g"
    and ptr: "generation_file fs = Has (g @ [CHR 0x0A])"
    and ns: "generations fs = Has ns" "g \<in> set ns"
    and rm: "\<forall>n. remove_err fs n = None"
    and fresh: "\<forall>r\<in>set (Replicas db). Pos.Generation (LastPos r) \<noteq> g"
  shows "fst (clean db fs) = Ok ()
    \<and> generation_file (snd (clean db fs)) = generation_file fs
    \<and> (\<exists>ms. generations (snd (clean db fs)) = Has ms \<and> set ms = {g})
    \<and> wal_dirs (snd (clean db fs)) g = wal_dirs fs g"
proof -
  have cur: "CurrentGeneration fs = Ok g" using g ptr by (rule CurrentGeneration_pointer)
  let ?l = "cleanGenerations_loop g ns fs"
  have cg: "cleanGenerations fs = ?l" using cur ns(1) by (simp add: cleanGenerations_def)
  have "\<forall>n\<in>set ns. remove_err fs n = None" using rm by simp
  from cleanGenerations_loop_ok [OF this ns(1), of g]
  have l: "fst ?l = Ok ()" "generations (snd ?l) = Has (filter (\<lambda>m. m = g \<or> m \<notin> set ns) ns)"
    "wal_dirs (snd ?l) = (\<lambda>x. if x \<in> set ns \<and> x \<noteq> g then NotExist else wal_dirs fs x)"
    by simp_all
  have f: "generation_file (snd ?l) = generation_file fs"
    using cleanGenerations_loop_fields [of g ns fs] by simp
  have cur': "CurrentGeneration (snd ?l) = Ok g"
    using g ptr f by (intro CurrentGeneration_pointer) simp_all
  have "cleanWAL_min g (Replicas db) (- 1) \<le> 0" using fresh by (intro cleanWAL_min_fresh) simp_all
  then have cw: "cleanWAL db (snd ?l) = (Ok (), snd ?l)" using cur' by (simp add: cleanWAL_def)
  obtain fs1 where l1: "?l = (Ok (), fs1)" using l(1) by (cases ?l) auto
  have fs1: "fs1 = snd ?l" using l1 by simp
  have c: "clean db fs = (Ok (), fs1)"
    unfolding clean_def cg l1 using cw unfolding fs1 [symmetric] by simp
  have "set (filter (\<lambda>m. m = g \<or> m \<notin> set ns) ns) = {g}" using ns(2) by auto
  then show ?thesis unfolding c using l(2,3) f unfolding fs1 [symmetric] by simp
qed


lemma mkdir_generation_fields [simp]:
  "wal_file (mkdir_generation g fs) = wal_file fs"
  "remove_err (mkdir_generation g fs) = remove_err fs"
  "generation_file (mkdir_generation g fs) = generation_file fs"
  "wal_dirs (mkdir_generation g fs) = wal_dirs fs"
  by (simp_all add: mkdir_generation_def)

lemma mkdir_generation_listed:
  "\<exists>ns. generations (mkdir_generation g fs) = Has ns \<and> g \<in> set ns"
  by (auto simp: mkdir_generation_def split: io.splits)

lemma createGeneration_starts:
  assumes p: "0 \<le> pageSize db" "pageSize db < 2 ^ 63"
    and r: "wal_file fs = Has (wal, wt)"
    and v: "valid_wal_header C wal"
    and rm: "\<forall>n. remove_err fs n = None"
    and g: "generation_name newgen"
    and fresh: "\<forall>r\<in>set (Replicas db). Pos.Generation (LastPos r) \<noteq> newgen"
  shows "\<exists>fs' k. createGeneration C db newgen fs = (Ok newgen, fs')
    \<and> CurrentGeneration fs' = Ok newgen
    \<and> (\<exists>ms. generations fs' = Has ms \<and> set ms = {newgen})
    \<and> shadow_file fs' (newgen, FormatWALPath 0)
        = Has (take 32 wal @ take (k * (nat (pageSize db) + 24)) (drop 32 wal))
    \<and> commit_bounded (nat (pageSize db))
        (take 32 wal @ take (k * (nat (pageSize db) + 24)) (drop 32 wal))"
proof -
  let ?fs1 = "mkdir_generation newgen fs"
  let ?path = "(newgen, FormatWALPath 0)"
  let ?i = "initShadowWALFile C db ?fs1 ?path"
  have ne: "newgen \<noteq> []" using g by (rule generation_name_props)
  have path: "ShadowWALPath newgen 0 = Ok ?path" using ne by (simp add: ShadowWALPath_def)
  obtain ns1 where ns1: "generations ?fs1 = Has ns1" "newgen \<in> set ns1"
    using mkdir_generation_listed [of newgen fs] by blast
  have r1: "wal_file ?fs1 = Has (wal, wt)" using r by simp
  from initShadowWALFile_ok [OF p r1 v, of ?path]
  obtain n k where i: "fst ?i = Ok n"
    "shadow_file (snd ?i) ?path = Has (take 32 wal @ take (k * (nat (pageSize db) + 24)) (drop 32 wal))"
    "commit_bounded (nat (pageSize db)) (take 32 wal @ take (k * (nat (pageSize db) + 24)) (drop 32 wal))"
    "generations (snd ?i) = generations ?fs1"
    "remove_err (snd ?i) = remove_err ?fs1"
    by blast
  obtain fs2 where i2: "?i = (Ok n, fs2)" using i(1) by (cases ?i) auto
  have fs2: "snd ?i = fs2" using i2 by simp
  let ?fs3 = "fs2\<lparr>generation_file := Has (newgen @ [CHR 0x0A])\<rparr>"
  have ptr: "generation_file ?fs3 = Has (newgen @ [CHR 0x0A])" by simp
  have gs3: "generations ?fs3 = Has ns1" using i(4) ns1(1) unfolding fs2 by simp
  have rm3: "\<forall>n. remove_err ?fs3 n = None" using i(5) rm unfolding fs2 by simp
  from clean_new_generation [OF g ptr gs3 ns1(2) rm3 fresh]
  have c: "fst (clean db ?fs3) = Ok ()"
    "generation_file (snd (clean db ?fs3)) = Has (newgen @ [CHR 0x0A])"
    "\<exists>ms. generations (snd (clean db ?fs3)) = Has ms \<and> set ms = {newgen}"
    "wal_dirs (snd (clean db ?fs3)) newgen = wal_dirs fs2 newgen"
    by simp_all
  obtain fs4 where c4: "clean db ?fs3 = (Ok (), fs4)" using c(1) by (cases "clean db ?fs3") auto
  have fs4: "snd (clean db ?fs3) = fs4" using c4 by simp
  have res: "createGeneration C db newgen fs = (Ok newgen, fs4)"
    by (simp add: createGeneration_def Let_def path i2 c4)
  have cur: "CurrentGeneration fs4 = Ok newgen"
    using g c(2) unfolding fs4 by (rule CurrentGeneration_pointer)
  have "shadow_file fs4 ?path = shadow_file fs2 ?path"
    using c(4) unfolding fs4 by (intro shadow_file_cong) simp
  then have sf: "shadow_file fs4 ?path
      = Has (take 32 wal @ take (k * (nat (pageSize db) + 24)) (drop 32 wal))"
    using i(2) unfolding fs2 by simp
  show ?thesis
    apply (rule exI [of _ fs4], rule exI [of _ k])
    using res cur c(3) sf i(3) unfolding fs4 by simp
qed

lemma Sync_verify_starts_generation:
  assumes vi: "verify db fs = Ok info" "reason info \<noteq> []"
    and p: "0 \<le> pageSize db" "pageSize db < 2 ^ 63"
    and r: "wal_file fs = Has (wal, wt)"
    and v: "valid_wal_header C wal"
    and rm: "\<forall>n. remove_err fs n = None"
    and g: "generation_name newgen"
    and fresh: "\<forall>r\<in>set (Replicas db). Pos.Generation (LastPos r) \<noteq> newgen"
  shows "\<exists>fs' k. Sync_verify C db newgen fs =
        (Ok (info\<lparr>generation := newgen, shadowWALPath := (newgen, FormatWALPath 0),
                  shadowWALSize := 32, restart := False, reason := []\<rparr>), fs')
    \<and> CurrentGeneration fs' = Ok newgen
    \<and> (\<exists>ms. generations fs' = Has ms \<and> set ms = {newgen})
    \<and> shadow_file fs' (newgen, FormatWALPath 0)
        = Has (take 32 wal @ take (k * (nat (pageSize db) + 24)) (drop 32 wal))
    \<and> commit_bounded (nat (pageSize db))
        (take 32 wal @ take (k * (nat (pageSize db) + 24)) (drop 32 wal))"
proof -
  from createGeneration_starts [OF p r v rm g fresh]
  obtain fs' k where c: "createGeneration C db newgen fs = (Ok newgen, fs')"
    "CurrentGeneration fs' = Ok newgen"
    "\<exists>ms. generations fs' = Has ms \<and> set ms = {newgen}"
    "shadow_file fs' (newgen, FormatWALPath 0)
        = Has (take 32 wal @ take (k * (nat (pageSize db) + 24)) (drop 32 wal))"
    "commit_bounded (nat (pageSize db))
        (take 32 wal @ take (k * (nat (pageSize db) + 24)) (drop 32 wal))"
    by blast
  have "Sync_verify C db newgen fs =
        (Ok (info\<lparr>generation := newgen, shadowWALPath := (newgen, FormatWALPath 0),
                  shadowWALSize := 32, restart := False, reason := []\<rparr>), fs')"
    using Sync_verify_new_generation [OF vi, of C newgen] c(1) by simp
  then show ?thesis using c(2-5) by blast
qed

lemma ex_hdr512_valid: "valid_wal_header sqlite_Checksum ex_hdr512"
  by code_simp

lemma ex_newgen_name: "generation_name ex_newgen"
  by (simp add: generation_name_def ex_newgen_def GenerationNameLen_def hexDigits_def)

lemma ex_db512_fresh:
  "\<forall>r\<in>set (Replicas ex_db512). Pos.Generation (LastPos r) \<noteq> ex_newgen"
  by (simp add: ex_db512_def ex_db_def ex_gen_def ex_newgen_def)

text \<open>
  C5: when the generation pointer, the database file, the live WAL and the shadow WAL
  directory can be read, \<open>verify\<close> returns without error and its reason is the one the
  spec lists, in this order: no current generation; current index at \<open>MaxIndex\<close> or
  above; current segment file missing; frame-aligned segment size below 32; aligned
  size above the live WAL size; headers differ and the segment is header-only; the last
  synced frame differs between live WAL and segment; and otherwise the reason is empty.
  With a non-empty reason \<open>Sync\<close> calls \<open>createGeneration\<close>, and the only error it can
  report then is a failure of \<open>createGeneration\<close>. Where the live WAL has a valid
  header, no removal fails and the new name is a generation name that no replica
  position carries, \<open>createGeneration\<close> succeeds: \<open>Sync\<close> reports no error and goes on
  with the reason cleared, at segment 0 of the new generation, size 32; the pointer file
  names the new generation, it is the only generation left, and its segment 0 is the
  live header followed by the frames copied up to the last commit.
\<close>

theorem verify_reasons:
  assumes "0 \<le> pageSize db" "pageSize db < 2 ^ 63"
    and "CurrentGeneration fs = Ok gen"
    and "gen \<noteq> [] \<longrightarrow>
        db_file fs = Has dbfi \<and> wal_file fs = Has (wal, wt)
        \<and> CurrentShadowWALIndex fs gen = Ok (index, tot)
        \<and> (\<forall>e. shadow_file fs (gen, FormatWALPath index) \<noteq> Fails e)
        \<and> (\<forall>b. shadow_file fs (gen, FormatWALPath index) = Has b \<longrightarrow> int (length b) < 2 ^ 63)"
  shows "\<exists>info. verify db fs = Ok info
    \<and> reason info = verify_reason (pageSize db) gen index
        (case shadow_file fs (gen, FormatWALPath index) of Has b \<Rightarrow> Some b | x \<Rightarrow> None) wal
    \<and> (reason info \<noteq> [] \<longrightarrow>
        Sync_verify C db newgen fs =
          (case createGeneration C db newgen fs of
             (Ok g, fs') \<Rightarrow>
               (Ok (info\<lparr>generation := g, shadowWALPath := (g, FormatWALPath 0),
                         shadowWALSize := 32, restart := False, reason := []\<rparr>), fs')
           | (Err e, fs') \<Rightarrow> (Err (Wrap ''create generation'' e), fs')
           | (Panic m, fs') \<Rightarrow> (Panic m, fs')))
    \<and> (reason info \<noteq> [] \<and> wal_file fs = Has (live, lt) \<and> valid_wal_header C live
         \<and> (\<forall>n. remove_err fs n = None) \<and> generation_name newgen
         \<and> (\<forall>r\<in>set (Replicas db). Pos.Generation (LastPos r) \<noteq> newgen)
        \<longrightarrow> (\<exists>fs' k. Sync_verify C db newgen fs =
                (Ok (info\<lparr>generation := newgen, shadowWALPath := (newgen, FormatWALPath 0),
                          shadowWALSize := 32, restart := False, reason := []\<rparr>), fs')
              \<and> CurrentGeneration fs' = Ok newgen
              \<and> (\<exists>ms. generations fs' = Has ms \<and> set ms = {newgen})
              \<and> shadow_file fs' (newgen, FormatWALPath 0)
                  = Has (take 32 live @ take (k * (nat (pageSize db) + 24)) (drop 32 live))
              \<and> commit_bounded (nat (pageSize db))
                  (take 32 live @ take (k * (nat (pageSize db) + 24)) (drop 32 live))))"
proof -
  from verify_returns_reason [OF assms]
  obtain info where i: "verify db fs = Ok info"
    "reason info = verify_reason (pageSize db) gen index
        (case shadow_file fs (gen, FormatWALPath index) of Has b \<Rightarrow> Some b | x \<Rightarrow> None) wal"
    by blast
  have 3: "reason info \<noteq> [] \<longrightarrow>
        Sync_verify C db newgen fs =
          (case createGeneration C db newgen fs of
             (Ok g, fs') \<Rightarrow>
               (Ok (info\<lparr>generation := g, shadowWALPath := (g, FormatWALPath 0),
                         shadowWALSize := 32, restart := False, reason := []\<rparr>), fs')
           | (Err e, fs') \<Rightarrow> (Err (Wrap ''create generation'' e), fs')
           | (Panic m, fs') \<Rightarrow> (Panic m, fs'))"
    using Sync_verify_new_generation [OF i(1), of C newgen] by blast
  have 4: "reason info \<noteq> [] \<and> wal_file fs = Has (live, lt) \<and> valid_wal_header C live
         \<and> (\<forall>n. remove_err fs n = None) \<and> generation_name newgen
         \<and> (\<forall>r\<in>set (Replicas db). Pos.Generation (LastPos r) \<noteq> newgen)
        \<longrightarrow> (\<exists>fs' k. Sync_verify C db newgen fs =
                (Ok (info\<lparr>generation := newgen, shadowWALPath := (newgen, FormatWALPath 0),
                          shadowWALSize := 32, restart := False, reason := []\<rparr>), fs')
              \<and> CurrentGeneration fs' = Ok newgen
              \<and> (\<exists>ms. generations fs' = Has ms \<and> set ms = {newgen})
              \<and> shadow_file fs' (newgen, FormatWALPath 0)
                  = Has (take 32 live @ take (k * (nat (pageSize db) + 24)) (drop 32 live))
              \<and> commit_bounded (nat (pageSize db))
                  (take 32 live @ take (k * (nat (pageSize db) + 24)) (drop 32 live)))"
  proof (intro impI, elim conjE)
    assume a: "reason info \<noteq> []" "wal_file fs = Has (live, lt)" "valid_wal_header C live"
      "\<forall>n. remove_err fs n = None" "generation_name newgen"
      "\<forall>r\<in>set (Replicas db). Pos.Generation (LastPos r) \<noteq> newgen"
    show "\<exists>fs' k. Sync_verify C db newgen fs =
                (Ok (info\<lparr>generation := newgen, shadowWALPath := (newgen, FormatWALPath 0),
                          shadowWALSize := 32, restart := False, reason := []\<rparr>), fs')
              \<and> CurrentGeneration fs' = Ok newgen
              \<and> (\<exists>ms. generations fs' = Has ms \<and> set ms = {newgen})
              \<and> shadow_file fs' (newgen, FormatWALPath 0)
                  = Has (take 32 live @ take (k * (nat (pageSize db) + 24)) (drop 32 live))
              \<and> commit_bounded (nat (pageSize db))
                  (take 32 live @ take (k * (nat (pageSize db) + 24)) (drop 32 live))"
      by (rule Sync_verify_starts_generation [OF i(1) a(1) assms(1,2) a(2-6)])
  qed
  show ?thesis
    by (rule exI [of _ info], intro conjI) (fact i(1), fact i(2), fact 3, fact 4)
qed

theorem verify_reasons_witness:
  "(\<exists>info. verify ex_db512 ex_fs_truncated = Ok info
       \<and> reason info = ''wal truncated by another process'')
   \<and> fst (Sync_verify sqlite_Checksum ex_db512 ex_newgen ex_fs_truncated)
      = Ok \<lparr>generation = ex_newgen, dbModTime = 1000, walSize = 32, walModTime = 2000,
            shadowWALPath = (ex_newgen, ''00000000.wal''), shadowWALSize = 32,
            restart = False, reason = []\<rparr>
   \<and> CurrentGeneration (snd (Sync_verify sqlite_Checksum ex_db512 ex_newgen ex_fs_truncated))
      = Ok ex_newgen
   \<and> shadow_file (snd (Sync_verify sqlite_Checksum ex_db512 ex_newgen ex_fs_truncated))
        (ex_newgen, ''00000000.wal'')
      = Has ex_hdr512"
proof -
  let ?s = "Sync_verify sqlite_Checksum ex_db512 ex_newgen ex_fs_truncated"
  have p: "0 \<le> pageSize ex_db512" "pageSize ex_db512 < 2 ^ 63"
    by (simp_all add: ex_db512_def)
  have live: "ex_gen \<noteq> [] \<longrightarrow>
        db_file ex_fs_truncated = Has (4096, 1000) \<and> wal_file ex_fs_truncated = Has (ex_hdr512, 2000)
        \<and> CurrentShadowWALIndex ex_fs_truncated ex_gen = Ok (0, 1104)
        \<and> (\<forall>e. shadow_file ex_fs_truncated (ex_gen, FormatWALPath 0) \<noteq> Fails e)
        \<and> (\<forall>b. shadow_file ex_fs_truncated (ex_gen, FormatWALPath 0) = Has b
              \<longrightarrow> int (length b) < 2 ^ 63)"
    using ex_truncated_index ex_truncated_segment by (auto simp: ex_fs_truncated_def)
  from verify_reasons [OF p ex_truncated_generation live,
      of sqlite_Checksum ex_newgen ex_hdr512 2000]
  obtain info where i: "verify ex_db512 ex_fs_truncated = Ok info"
    "reason info \<noteq> [] \<and> wal_file ex_fs_truncated = Has (ex_hdr512, 2000)
         \<and> valid_wal_header sqlite_Checksum ex_hdr512
         \<and> (\<forall>n. remove_err ex_fs_truncated n = None) \<and> generation_name ex_newgen
         \<and> (\<forall>r\<in>set (Replicas ex_db512). Pos.Generation (LastPos r) \<noteq> ex_newgen)
        \<longrightarrow> (\<exists>fs' k. ?s =
                (Ok (info\<lparr>generation := ex_newgen, shadowWALPath := (ex_newgen, FormatWALPath 0),
                          shadowWALSize := 32, restart := False, reason := []\<rparr>), fs')
              \<and> CurrentGeneration fs' = Ok ex_newgen
              \<and> (\<exists>ms. generations fs' = Has ms \<and> set ms = {ex_newgen})
              \<and> shadow_file fs' (ex_newgen, FormatWALPath 0)
                  = Has (take 32 ex_hdr512 @ take (k * (nat (pageSize ex_db512) + 24)) (drop 32 ex_hdr512))
              \<and> commit_bounded (nat (pageSize ex_db512))
                  (take 32 ex_hdr512 @ take (k * (nat (pageSize ex_db512) + 24)) (drop 32 ex_hdr512)))"
    by - (elim exE conjE, rule that, assumption+)
  have info: "info = \<lparr>generation = ex_gen, dbModTime = 1000, walSize = 32, walModTime = 2000,
         shadowWALPath = (ex_gen, ''00000000.wal''), shadowWALSize = 1104, restart = False,
         reason = ''wal truncated by another process''\<rparr>"
    using i(1) ex_truncated_verify by simp
  have pre: "reason info \<noteq> [] \<and> wal_file ex_fs_truncated = Has (ex_hdr512, 2000)
         \<and> valid_wal_header sqlite_Checksum ex_hdr512
         \<and> (\<forall>n. remove_err ex_fs_truncated n = None) \<and> generation_name ex_newgen
         \<and> (\<forall>r\<in>set (Replicas ex_db512). Pos.Generation (LastPos r) \<noteq> ex_newgen)"
    using info ex_hdr512_valid ex_newgen_name ex_db512_fresh by (simp add: ex_fs_truncated_def)
  from mp [OF i(2) pre] obtain fs' k where s: "?s =
        (Ok (info\<lparr>generation := ex_newgen, shadowWALPath := (ex_newgen, FormatWALPath 0),
                  shadowWALSize := 32, restart := False, reason := []\<rparr>), fs')"
      "CurrentGeneration fs' = Ok ex_newgen"
      "shadow_file fs' (ex_newgen, FormatWALPath 0)
          = Has (take 32 ex_hdr512 @ take (k * (nat (pageSize ex_db512) + 24)) (drop 32 ex_hdr512))"
    by - (elim exE conjE, rule that, assumption+)
  show ?thesis
    using i(1) info s by (simp add: FormatWALPath_0_1)
qed

end
